theory Spec2Isabelle
  imports Main "HOL-Library.Word" "HOL-Library.AList"
begin

unbundle bit_operations_syntax

section \<open>Data model of Function.c\<close>

text \<open>
  Pointers and JNI references are natural numbers, \<open>0\<close> being \<open>NULL\<close>. An \<open>Oid\<close> is the
  host's unsigned 32-bit identifier; a \<open>jint\<close> that carries one has the same bits. A
  \<open>jboolean\<close> is an unsigned byte that the code compares with \<open>JNI_TRUE\<close>. A \<open>jvalue\<close>
  is the eight-byte union of the JNI, read here through its widest member \<open>j\<close>; a
  \<open>Datum\<close> is the host's word-sized value. A \<open>jstring\<close> is a string or the null
  reference (\<open>None\<close>).
\<close>

type_synonym ptr = nat
type_synonym jobject = nat
type_synonym Oid = "32 word"
type_synonym jboolean = "8 word"
type_synonym jvalue = "64 word"
type_synonym Datum = "64 word"
type_synonym jstring = "string option"

definition NULL :: nat where
  "NULL = 0"

definition InvalidOid :: Oid where
  "InvalidOid = 0"

definition JNI_TRUE :: jboolean where
  "JNI_TRUE = 1"

text \<open>
  What can end a call early: \<open>PgError\<close> is an \<open>elog(ERROR)\<close> raised by this file or by one
  of the functions it calls, \<open>JniException\<close> an exception of the guest runtime raised in
  a JNI call (an array index out of range), \<open>Fault\<close> what C leaves undefined (a null
  dereference, an access past an array, a second free).
\<close>

datatype error = PgError | JniException | Fault

text \<open>
  A \<open>Type\<close> is an object of Type.c, which is not part of this file. The model keeps of
  each Type the answers of the accessor functions that Function.c calls on it:
  \<open>Type_getOid\<close>, \<open>Type_getJavaTypeName\<close>, \<open>Type_isPrimitive\<close>,
  \<open>Type_getElementType\<close> (\<open>None\<close> for \<open>NULL\<close>), \<open>Type_isDynamic\<close> and
  \<open>Type_isOutParameter\<close>.
\<close>

datatype Type = Type
  (Type_getOid: Oid)
  (Type_getJavaTypeName: string)
  (Type_isPrimitive: bool)
  (Type_getElementType: "Type option")
  (Type_isDynamic: bool)
  (Type_isOutParameter: bool)

text \<open>
  \<open>struct Function_\<close>. The two members of the union \<open>func\<close> are kept side by side;
  \<open>isUDT\<close> says which one the code reads. \<open>returnType\<close> is a pointer that
  \<open>PgObjectClass_allocInstance\<close> zeroes, hence an option; \<open>paramTypes\<close> is the array
  the pointer leads to, empty for the null pointer. \<open>udtFunction\<close> is the one-character
  tag of the function pointer stored (\<open>i\<close>, \<open>o\<close>, \<open>r\<close>, \<open>s\<close>).
\<close>

record Function =
  readOnly :: bool
  isUDT :: bool
  clazz :: jobject
  schemaLoader :: jobject
  isMultiCall :: bool
  numRefParams :: "16 word"
  numPrimParams :: "16 word"
  paramTypes :: "Type list"
  returnType :: "Type option"
  typeMap :: jobject
  methodHandle :: jobject
  udt :: ptr
  udtFunction :: "char option"

text \<open>The instance as \<open>PgObjectClass_allocInstance\<close> returns it: every byte zero.\<close>

definition allocInstance :: Function where
  "allocInstance = \<lparr> readOnly = False, isUDT = False, clazz = NULL, schemaLoader = NULL,
     isMultiCall = False, numRefParams = 0, numPrimParams = 0, paramTypes = [],
     returnType = None, typeMap = NULL, methodHandle = NULL, udt = NULL,
     udtFunction = None \<rparr>"

text \<open>
  The functions of Type.c that build or compare Types are parameters of the model. Each
  one that can raise an error returns a sum.
\<close>

record TypeOps =
  Type_fromOid :: "Oid \<Rightarrow> jobject \<Rightarrow> error + Type"
  Type_fromJavaType :: "Oid \<Rightarrow> string option \<Rightarrow> error + Type"
  Type_canReplaceType :: "Type \<Rightarrow> Type \<Rightarrow> bool"
  Type_getCoerceIn :: "Type \<Rightarrow> Type \<Rightarrow> error + Type"
  Type_getCoerceOut :: "Type \<Rightarrow> Type \<Rightarrow> error + Type"
  Type_getRealType :: "Type \<Rightarrow> Oid \<Rightarrow> jobject \<Rightarrow> error + Type"

section \<open>Helpers: loops and Java arrays\<close>

text \<open>
  A counted \<open>for\<close> loop whose body may fail: the body runs on each index in turn and the
  first error ends the loop.
\<close>

fun for_loop :: "('s \<Rightarrow> nat \<Rightarrow> error + 's) \<Rightarrow> nat list \<Rightarrow> 's \<Rightarrow> error + 's" where
  "for_loop body [] s = Inr s"
| "for_loop body (i # is) s =
     (case body s i of Inl e \<Rightarrow> Inl e | Inr s' \<Rightarrow> for_loop body is s')"

text \<open>
  \<open>JNI_getObjectArrayElement\<close> and \<open>JNI_setObjectArrayElement\<close>: an index outside the
  array raises \<open>ArrayIndexOutOfBoundsException\<close> in the guest runtime.
\<close>

definition JNI_getObjectArrayElement :: "'a list \<Rightarrow> int \<Rightarrow> error + 'a" where
  "JNI_getObjectArrayElement arr i =
     (if 0 \<le> i \<and> nat i < length arr then Inr (arr ! nat i) else Inl JniException)"

definition JNI_setObjectArrayElement :: "'a list \<Rightarrow> int \<Rightarrow> 'a \<Rightarrow> error + 'a list" where
  "JNI_setObjectArrayElement arr i v =
     (if 0 \<le> i \<and> nat i < length arr then Inr (arr[nat i := v]) else Inl JniException)"

section \<open>Primitive or reference\<close>

definition passAsPrimitive :: "Type \<Rightarrow> bool" where
  "passAsPrimitive t \<longleftrightarrow> Type_isPrimitive t \<and> Type_getElementType t = None"

section \<open>The store callback for a non-UDT function\<close>

text \<open>
  The first loop of \<open>_storeToNonUDT\<close> fills \<open>paramTypes[i]\<close>: from the Java type name
  when the array \<open>paramJTypes\<close> is given and holds one at \<open>i\<close>, from the Oid otherwise.
  Reading \<open>paramOids[i]\<close> past the end of the Oid array is a fault.
\<close>

definition store_paramType ::
  "TypeOps \<Rightarrow> jobject \<Rightarrow> Oid list \<Rightarrow> jstring list option \<Rightarrow> Type list \<Rightarrow> nat
     \<Rightarrow> error + Type list" where
  "store_paramType ops tm paramOids paramJTypes pts i =
     (case (case paramJTypes of
              None \<Rightarrow> Inr None
            | Some arr \<Rightarrow> JNI_getObjectArrayElement arr (int i)) of
        Inl e \<Rightarrow> Inl e
      | Inr pjt \<Rightarrow>
          if length paramOids \<le> i then Inl Fault
          else
            (case (case pjt of
                     Some pjtc \<Rightarrow> Type_fromJavaType ops (paramOids ! i) (Some pjtc)
                   | None \<Rightarrow> Type_fromOid ops (paramOids ! i) tm) of
               Inl e \<Rightarrow> Inl e
             | Inr t \<Rightarrow> Inr (pts @ [t])))"

text \<open>
  The second loop stores each parameter's Java type name at \<open>outJTypes[i]\<close> and counts
  the parameter as primitive or reference. The counters are \<open>uint16\<close>.
\<close>

definition store_count ::
  "Type list \<Rightarrow> jstring list \<times> 16 word \<times> 16 word \<Rightarrow> nat
     \<Rightarrow> error + (jstring list \<times> 16 word \<times> 16 word)" where
  "store_count pts s i =
     (case s of (outJTypes, refParams, primParams) \<Rightarrow>
        (case JNI_setObjectArrayElement outJTypes (int i)
                (Some (Type_getJavaTypeName (pts ! i))) of
           Inl e \<Rightarrow> Inl e
         | Inr out \<Rightarrow>
             if passAsPrimitive (pts ! i) then Inr (out, refParams, primParams + 1)
             else Inr (out, refParams + 1, primParams)))"

text \<open>
  \<open>Java_org_postgresql_pljava_internal_Function__1storeToNonUDT\<close>. The result is the
  Function as stored, the array \<open>outJTypes\<close> as filled, and the value returned to the
  guest runtime. An error inside the \<open>PG_TRY\<close> block is thrown to the guest runtime,
  which abandons the Function; the model returns the error.
\<close>

definition storeToNonUDT ::
  "TypeOps \<Rightarrow> Function \<Rightarrow> jobject \<Rightarrow> jobject \<Rightarrow> jboolean \<Rightarrow> jboolean \<Rightarrow> jobject \<Rightarrow> int
     \<Rightarrow> Oid \<Rightarrow> jstring \<Rightarrow> Oid list \<Rightarrow> jstring list option \<Rightarrow> jstring list
     \<Rightarrow> error + (Function \<times> jstring list \<times> bool)" where
  "storeToNonUDT ops self schemaLoader' clazz' readOnly' isMultiCall' typeMap' numParams
       returnType' returnJType paramOids paramJTypes outJTypes =
     (case (case returnJType of
              Some rjtc \<Rightarrow> Type_fromJavaType ops returnType' (Some rjtc)
            | None \<Rightarrow> Type_fromOid ops returnType' typeMap') of
        Inl e \<Rightarrow> Inl e
      | Inr rt \<Rightarrow>
          (case (if 0 < numParams
                 then for_loop (store_paramType ops typeMap' paramOids paramJTypes)
                        [0 ..< nat numParams] []
                 else Inr (paramTypes self)) of
             Inl e \<Rightarrow> Inl e
           | Inr pts \<Rightarrow>
               (case (if 0 < numParams
                      then for_loop (store_count pts) [0 ..< nat numParams] (outJTypes, 0, 0)
                      else Inr (outJTypes, 0, 0)) of
                  Inl e \<Rightarrow> Inl e
                | Inr (out, refParams, primParams) \<Rightarrow>
                    (case JNI_setObjectArrayElement out
                            (if 0 < numParams then numParams else 0)
                            (Some (Type_getJavaTypeName rt)) of
                       Inl e \<Rightarrow> Inl e
                     | Inr out' \<Rightarrow>
                         (let returnTypeIsOutParameter = Type_isOutParameter rt;
                              refParams' =
                                (if returnTypeIsOutParameter \<and> JNI_TRUE \<noteq> isMultiCall'
                                 then refParams + 1 else refParams)
                          in Inr (self\<lparr> isUDT := False,
                                        readOnly := (JNI_TRUE = readOnly'),
                                        schemaLoader := schemaLoader',
                                        clazz := clazz',
                                        isMultiCall := (JNI_TRUE = isMultiCall'),
                                        typeMap := typeMap',
                                        returnType := Some rt,
                                        paramTypes := pts,
                                        numRefParams := refParams',
                                        numPrimParams := primParams \<rparr>,
                                  out', returnTypeIsOutParameter))))))"

section \<open>Type reconciliation\<close>

text \<open>
  \<open>Java_org_postgresql_pljava_internal_Function__1reconcileTypes\<close>, in three steps and
  then as a whole. \<open>index\<close> is a parameter index, or \<open>-1\<close> or \<open>-2\<close> for the return
  type. Reading \<open>paramTypes[index]\<close> outside the array, or passing on a null
  \<open>returnType\<close>, is a fault. The result is the Function and the array \<open>resolvedTypes\<close>
  after the call. As with the store callback, an error is thrown to the guest runtime,
  which abandons the Function, and the model returns the error alone.
\<close>

definition reconcile_origType :: "Function \<Rightarrow> bool \<Rightarrow> int \<Rightarrow> error + Type" where
  "reconcile_origType self actOnReturnType index =
     (if actOnReturnType
      then (case returnType self of None \<Rightarrow> Inl Fault | Some t \<Rightarrow> Inr t)
      else if 0 \<le> index \<and> nat index < length (paramTypes self)
           then Inr (paramTypes self ! nat index)
           else Inl Fault)"

definition reconcile_coerce :: "TypeOps \<Rightarrow> bool \<Rightarrow> Type \<Rightarrow> Type \<Rightarrow> error + Type" where
  "reconcile_coerce ops coerceOutAndSingleton replType origType =
     (if \<not> Type_canReplaceType ops replType origType
      then (if coerceOutAndSingleton
            then Type_getCoerceOut ops replType origType
            else Type_getCoerceIn ops replType origType)
      else Inr replType)"

definition reconcile_store :: "Function \<Rightarrow> bool \<Rightarrow> int \<Rightarrow> Type \<Rightarrow> Type \<Rightarrow> Function" where
  "reconcile_store self actOnReturnType index origType replType =
     (if actOnReturnType
      then self\<lparr> returnType := Some replType \<rparr>
      else
        (let s1 = self\<lparr> paramTypes := (paramTypes self)[nat index := replType] \<rparr>
         in if passAsPrimitive origType \<noteq> passAsPrimitive replType
            then (if Type_isPrimitive replType
                  then s1\<lparr> numRefParams := numRefParams s1 - 1,
                           numPrimParams := numPrimParams s1 + 1 \<rparr>
                  else s1\<lparr> numRefParams := numRefParams s1 + 1,
                           numPrimParams := numPrimParams s1 - 1 \<rparr>)
            else s1))"

definition reconcileTypes ::
  "TypeOps \<Rightarrow> Function \<Rightarrow> jstring list \<Rightarrow> jstring list \<Rightarrow> int
     \<Rightarrow> error + (Function \<times> jstring list)" where
  "reconcileTypes ops self resolvedTypes explicitTypes index0 =
     (let actOnReturnType = (index0 = -1 \<or> index0 = -2);
          coerceOutAndSingleton = (index0 = -2);
          index = (if actOnReturnType then int (length resolvedTypes) - 1 else index0)
      in
        (case reconcile_origType self actOnReturnType index of
           Inl e \<Rightarrow> Inl e
         | Inr origType \<Rightarrow>
             (case JNI_getObjectArrayElement explicitTypes
                     (if coerceOutAndSingleton then 0 else index) of
                Inl e \<Rightarrow> Inl e
              | Inr javaNameString \<Rightarrow>
                  (case Type_fromJavaType ops
                          (if actOnReturnType then InvalidOid else Type_getOid origType)
                          javaNameString of
                     Inl e \<Rightarrow> Inl e
                   | Inr replType0 \<Rightarrow>
                       (case reconcile_coerce ops coerceOutAndSingleton replType0 origType of
                          Inl e \<Rightarrow> Inl e
                        | Inr replType \<Rightarrow>
                            (case JNI_setObjectArrayElement resolvedTypes index
                                    javaNameString of
                               Inl e \<Rightarrow> Inl e
                             | Inr res \<Rightarrow>
                                 Inr (reconcile_store self actOnReturnType index
                                        origType replType, res)))))))"

section \<open>Process state\<close>

text \<open>
  The fields of \<open>struct Invocation_\<close> (Invocation.h) that this file reads or writes;
  the field \<open>function\<close> is \<open>ic_function\<close> here. The link \<open>previous\<close> is the rest
  of the list \<open>currentInvocation\<close>, innermost frame first; the empty list is the null
  pointer.
\<close>

record Invocation =
  ic_function :: ptr
  pushedFrame :: bool
  triggerData :: ptr

text \<open>
  What the code reads of the host's \<open>FunctionCallInfo\<close>: the arguments with their null
  flags (\<open>PG_NARGS\<close>, \<open>PG_GETARG_DATUM\<close>, \<open>PG_ARGISNULL\<close>), \<open>context\<close> (here \<open>fc_context\<close>),
  \<open>flinfo->fn_extra\<close> (null on the first call of a set-returning function) and the
  types the call expression gives for the arguments and the result; and the output flag
  \<open>isnull\<close>.
\<close>

record FunctionCallInfo =
  isnull :: bool
  args :: "(Datum \<times> bool) list"
  fc_context :: ptr
  fn_extra :: ptr
  fn_expr_argtypes :: "Oid list"
  fn_expr_rettype :: Oid

definition PG_NARGS :: "FunctionCallInfo \<Rightarrow> nat" where
  "PG_NARGS fcinfo = length (args fcinfo)"

definition PG_ARGISNULL :: "FunctionCallInfo \<Rightarrow> nat \<Rightarrow> bool" where
  "PG_ARGISNULL fcinfo idx = snd (args fcinfo ! idx)"

definition PG_GETARG_DATUM :: "FunctionCallInfo \<Rightarrow> nat \<Rightarrow> Datum" where
  "PG_GETARG_DATUM fcinfo idx = fst (args fcinfo ! idx)"

definition SRF_IS_FIRSTCALL :: "FunctionCallInfo \<Rightarrow> bool" where
  "SRF_IS_FIRSTCALL fcinfo \<longleftrightarrow> fn_extra fcinfo = NULL"

definition get_fn_expr_argtype :: "FunctionCallInfo \<Rightarrow> nat \<Rightarrow> Oid" where
  "get_fn_expr_argtype fcinfo idx =
     (if idx < length (fn_expr_argtypes fcinfo) then fn_expr_argtypes fcinfo ! idx
      else InvalidOid)"

text \<open>
  The static variables of the file and what they point to. \<open>s_countCheck\<close> is the
  \<open>jshort\<close> header of the parameter area; it lies in the same buffer as the primitive
  slots, at an offset that a generated header outside this file gives, and the model
  keeps it as a field of its own. \<open>heap\<close> holds the Function instances by address and
  \<open>brk\<close> is the last address handed out. \<open>s_funcMap\<close> is the registry: keys with
  their values, a value being a Function address. \<open>frames\<close> is the guest runtime's stack
  of saved parameter areas, \<open>exceptionPending\<close> its pending-exception state, and
  \<open>CurrentMemoryContext\<close> the host's current arena.
\<close>

record State =
  s_countCheck :: "16 word"
  s_primitiveParameters :: "jvalue list"
  s_referenceParameters :: "jobject list"
  frames :: "(16 word \<times> jvalue list \<times> jobject list) list"
  currentInvocation :: "Invocation list"
  s_funcMap :: "(Oid \<times> ptr) list"
  heap :: "ptr \<rightharpoonup> Function"
  brk :: ptr
  exceptionPending :: bool
  CurrentMemoryContext :: ptr

text \<open>
  The functions of other files that Function.c calls with the process state at hand are
  parameters of the model: the Type functions that run guest code, the four UDT
  functions behind \<open>udtFunction\<close>, the helpers of Invocation.c and TriggerData.c, the
  host's catalog lookup, and the guest runtime's \<open>Function.create\<close>, which is given the
  address of the new instance and may fill it through the store callbacks.
\<close>

datatype SysCacheIdentifier = PROCOID | LANGOID | NAMESPACEOID

record Host =
  Type_coerceDatum :: "Type \<Rightarrow> Datum \<Rightarrow> State \<Rightarrow> error + (jvalue \<times> State)"
  Type_invoke ::
    "Type \<Rightarrow> Function \<Rightarrow> FunctionCallInfo \<Rightarrow> State
       \<Rightarrow> error + (Datum \<times> FunctionCallInfo \<times> State)"
  Type_invokeSRF ::
    "Type \<Rightarrow> Function \<Rightarrow> FunctionCallInfo \<Rightarrow> State
       \<Rightarrow> error + (Datum \<times> FunctionCallInfo \<times> State)"
  UDT_function ::
    "char option \<Rightarrow> ptr \<Rightarrow> FunctionCallInfo \<Rightarrow> State
       \<Rightarrow> error + (Datum \<times> FunctionCallInfo \<times> State)"
  Invocation_assertDisconnect :: "State \<Rightarrow> State"
  Invocation_assertConnect :: "State \<Rightarrow> State"
  Invocation_switchToUpperContext :: "State \<Rightarrow> ptr \<times> State"
  pljava_TriggerData_create :: "ptr \<Rightarrow> jobject"
  pljava_TriggerData_getTriggerReturnTuple :: "jobject \<Rightarrow> State \<Rightarrow> error + (ptr \<times> bool \<times> State)"
  PgObject_getValidTuple :: "SysCacheIdentifier \<Rightarrow> Oid \<Rightarrow> error + (Oid \<times> Oid)"
  Function_create_guest ::
    "ptr \<Rightarrow> Oid \<Rightarrow> bool \<Rightarrow> bool \<Rightarrow> bool \<Rightarrow> State \<Rightarrow> error + (jobject \<times> State)"

section \<open>The parameter area\<close>

text \<open>\<open>COUNTCHECK(refs, prims)\<close> on \<open>jsize\<close> operands, cast to \<open>jshort\<close>.\<close>

definition COUNTCHECK :: "32 word \<Rightarrow> 32 word \<Rightarrow> 16 word" where
  "COUNTCHECK refs prims = ucast (push_bit 8 refs OR (prims AND 0xff))"

text \<open>
  Modelled from the spec: \<open>ParameterFrame.push\<close> of the guest runtime, which is not in
  this file. The spec has it capture a private copy of the Shared Marshaling Area on a
  stack of frames.
\<close>

definition ParameterFrame_push :: "State \<Rightarrow> State" where
  "ParameterFrame_push st =
     st\<lparr> frames := (s_countCheck st, s_primitiveParameters st, s_referenceParameters st)
                     # frames st \<rparr>"

text \<open>
  The block shared by \<open>Function_invoke\<close> and \<open>Function_invokeTrigger\<close>: if the header
  is not zero, push a frame and record that in \<open>currentInvocation\<close>; then write the new
  header.
\<close>

definition pushFrameIfInFlight :: "State \<Rightarrow> error + State" where
  "pushFrameIfInFlight st =
     (if 0 \<noteq> s_countCheck st
      then (case currentInvocation (ParameterFrame_push st) of
              [] \<Rightarrow> Inl Fault
            | ic # previous \<Rightarrow>
                Inr ((ParameterFrame_push st)
                       \<lparr> currentInvocation := ic\<lparr> pushedFrame := True \<rparr> # previous \<rparr>))
      else Inr st)"

definition beginParameters :: "16 word \<Rightarrow> State \<Rightarrow> error + State" where
  "beginParameters counts st =
     (case pushFrameIfInFlight st of
        Inl e \<Rightarrow> Inl e
      | Inr st' \<Rightarrow> Inr (st'\<lparr> s_countCheck := counts \<rparr>))"

text \<open>A store into \<open>s_primitiveParameters\<close>; past the end of the array it is a fault.\<close>

definition setPrimitive :: "nat \<Rightarrow> jvalue \<Rightarrow> State \<Rightarrow> error + State" where
  "setPrimitive primIdx v st =
     (if primIdx < length (s_primitiveParameters st)
      then Inr (st\<lparr> s_primitiveParameters := (s_primitiveParameters st)[primIdx := v] \<rparr>)
      else Inl Fault)"

definition setReference :: "nat \<Rightarrow> jobject \<Rightarrow> State \<Rightarrow> error + State" where
  "setReference refIdx v st =
     (case JNI_setObjectArrayElement (s_referenceParameters st) (int refIdx) v of
        Inl e \<Rightarrow> Inl e
      | Inr refs \<Rightarrow> Inr (st\<lparr> s_referenceParameters := refs \<rparr>))"

section \<open>Function\_invoke\<close>

text \<open>
  The body of the loop over the passed arguments. The loop state is \<open>refIdx\<close>,
  \<open>primIdx\<close> and the process state. Reading \<open>types[idx]\<close> past the parameter types is
  a fault. The member \<open>l\<close> of the coerced \<open>jvalue\<close> is its value as a reference.
\<close>

definition marshal_arg ::
  "TypeOps \<Rightarrow> Host \<Rightarrow> Function \<Rightarrow> FunctionCallInfo \<Rightarrow> nat \<times> nat \<times> State \<Rightarrow> nat
     \<Rightarrow> error + (nat \<times> nat \<times> State)" where
  "marshal_arg ops host self fcinfo s idx =
     (case s of (refIdx, primIdx, st) \<Rightarrow>
        if length (paramTypes self) \<le> idx then Inl Fault
        else
          (let paramType = paramTypes self ! idx;
               passPrimitive = passAsPrimitive paramType
           in
             if PG_ARGISNULL fcinfo idx
             then (if passPrimitive
                   then (case setPrimitive primIdx 0 st of
                           Inl e \<Rightarrow> Inl e
                         | Inr st' \<Rightarrow> Inr (refIdx, primIdx + 1, st'))
                   else Inr (refIdx + 1, primIdx, st))
             else
               (case (if Type_isDynamic paramType
                      then Type_getRealType ops paramType (get_fn_expr_argtype fcinfo idx)
                             (typeMap self)
                      else Inr paramType) of
                  Inl e \<Rightarrow> Inl e
                | Inr realType \<Rightarrow>
                    (case Type_coerceDatum host realType (PG_GETARG_DATUM fcinfo idx) st of
                       Inl e \<Rightarrow> Inl e
                     | Inr (coerced, st1) \<Rightarrow>
                         if passPrimitive
                         then (case setPrimitive primIdx coerced st1 of
                                 Inl e \<Rightarrow> Inl e
                               | Inr st' \<Rightarrow> Inr (refIdx, primIdx + 1, st'))
                         else (case setReference refIdx (unat coerced) st1 of
                                 Inl e \<Rightarrow> Inl e
                               | Inr st' \<Rightarrow> Inr (refIdx + 1, primIdx, st'))))))"

text \<open>
  The part of \<open>Function_invoke\<close> for a non-UDT function before the call is dispatched:
  it yields the Type to invoke through and the process state handed to it.
\<close>

definition invoke_marshal ::
  "TypeOps \<Rightarrow> Host \<Rightarrow> Function \<Rightarrow> FunctionCallInfo \<Rightarrow> State \<Rightarrow> error + (Type \<times> State)" where
  "invoke_marshal ops host self fcinfo st =
     (let skipParameterConversion = (isMultiCall self \<and> \<not> SRF_IS_FIRSTCALL fcinfo);
          st0 = (if isMultiCall self \<and> SRF_IS_FIRSTCALL fcinfo
                 then Invocation_assertDisconnect host st else st)
      in
        (case (if \<not> skipParameterConversion
               then beginParameters
                      (COUNTCHECK (ucast (numRefParams self)) (ucast (numPrimParams self))) st0
               else Inr st0) of
           Inl e \<Rightarrow> Inl e
         | Inr st1 \<Rightarrow>
             (case returnType self of
                None \<Rightarrow> Inl Fault
              | Some invokerType \<Rightarrow>
                  if 0 < PG_NARGS fcinfo \<and> \<not> skipParameterConversion
                  then
                    (case (if Type_isDynamic invokerType
                           then Type_getRealType ops invokerType (fn_expr_rettype fcinfo)
                                  (typeMap self)
                           else Inr invokerType) of
                       Inl e \<Rightarrow> Inl e
                     | Inr invokerType' \<Rightarrow>
                         (case for_loop (marshal_arg ops host self fcinfo)
                                 [0 ..< PG_NARGS fcinfo] (0, 0, st1) of
                            Inl e \<Rightarrow> Inl e
                          | Inr (refIdx, primIdx, st2) \<Rightarrow> Inr (invokerType', st2)))
                  else Inr (invokerType, st1))))"

definition Function_invoke ::
  "TypeOps \<Rightarrow> Host \<Rightarrow> Function \<Rightarrow> FunctionCallInfo \<Rightarrow> State
     \<Rightarrow> error + (Datum \<times> FunctionCallInfo \<times> State)" where
  "Function_invoke ops host self fcinfo st =
     (if isUDT self
      then UDT_function host (udtFunction self) (udt self) (fcinfo\<lparr> isnull := False \<rparr>) st
      else
        (case invoke_marshal ops host self (fcinfo\<lparr> isnull := False \<rparr>) st of
           Inl e \<Rightarrow> Inl e
         | Inr (invokerType, st') \<Rightarrow>
             if isMultiCall self
             then Type_invokeSRF host invokerType self (fcinfo\<lparr> isnull := False \<rparr>) st'
             else Type_invoke host invokerType self (fcinfo\<lparr> isnull := False \<rparr>) st'))"

section \<open>Function\_invokeTrigger\<close>

text \<open>
  Writing a field of \<open>*currentInvocation\<close>; with no frame it is a null dereference.
\<close>

definition setTriggerData :: "ptr \<Rightarrow> State \<Rightarrow> error + State" where
  "setTriggerData td st =
     (case currentInvocation st of
        [] \<Rightarrow> Inl Fault
      | ic # previous \<Rightarrow>
          Inr (st\<lparr> currentInvocation := ic\<lparr> triggerData := td \<rparr> # previous \<rparr>))"

text \<open>
  \<open>Function_invokeTrigger\<close> is modelled as compiled for PostgreSQL 10 or later. This is
  the part between the creation of the guest-visible trigger data \<open>jtd\<close> and the
  generic invoke: header for one reference and no primitive, \<open>jtd\<close> in reference slot 0,
  the trigger data recorded in the frame.
\<close>

definition invokeTrigger_marshal :: "ptr \<Rightarrow> jobject \<Rightarrow> State \<Rightarrow> error + State" where
  "invokeTrigger_marshal td jtd st =
     (case beginParameters (COUNTCHECK 1 0) st of
        Inl e \<Rightarrow> Inl e
      | Inr st1 \<Rightarrow>
          (case setReference 0 jtd st1 of
             Inl e \<Rightarrow> Inl e
           | Inr st2 \<Rightarrow> setTriggerData td st2))"

text \<open>
  The part after the generic invoke has returned with result flag and state
  \<open>(fcinfo1, st)\<close>. \<open>PointerGetDatum\<close> is the address as a Datum.
\<close>

definition invokeTrigger_finish ::
  "Host \<Rightarrow> jobject \<Rightarrow> FunctionCallInfo \<Rightarrow> State
     \<Rightarrow> error + (Datum \<times> FunctionCallInfo \<times> State)" where
  "invokeTrigger_finish host jtd fcinfo1 st =
     (let fcinfo2 = fcinfo1\<lparr> isnull := False \<rparr> in
        if exceptionPending st then Inr (0, fcinfo2, st)
        else
          (case setTriggerData NULL st of
             Inl e \<Rightarrow> Inl e
           | Inr st1 \<Rightarrow>
               (case Invocation_switchToUpperContext host
                       (Invocation_assertConnect host st1) of
                  (currCtx, st2) \<Rightarrow>
                    (case pljava_TriggerData_getTriggerReturnTuple host jtd st2 of
                       Inl e \<Rightarrow> Inl e
                     | Inr (tuple, isnull', st3) \<Rightarrow>
                         Inr (of_nat tuple,
                              fcinfo2\<lparr> isnull := isnull' \<rparr>\<lparr> isnull := False \<rparr>,
                              st3\<lparr> CurrentMemoryContext := currCtx \<rparr>)))))"

definition Function_invokeTrigger ::
  "Host \<Rightarrow> Function \<Rightarrow> FunctionCallInfo \<Rightarrow> State
     \<Rightarrow> error + (Datum \<times> FunctionCallInfo \<times> State)" where
  "Function_invokeTrigger host self fcinfo st =
     (let td = fc_context fcinfo;
          jtd = pljava_TriggerData_create host td
      in
        if jtd = NULL then Inr (0, fcinfo, st)
        else
          (case invokeTrigger_marshal td jtd st of
             Inl e \<Rightarrow> Inl e
           | Inr st1 \<Rightarrow>
               (case returnType self of
                  None \<Rightarrow> Inl Fault
                | Some rt \<Rightarrow>
                    (case Type_invoke host rt self fcinfo st1 of
                       Inl e \<Rightarrow> Inl e
                     | Inr (d, fcinfo1, st2) \<Rightarrow> invokeTrigger_finish host jtd fcinfo1 st2))))"

section \<open>The registry\<close>

text \<open>
  Modelled from the spec: the hash map of HashMap.c, which is not in this file. The spec
  has the registry map a procedure identity to a Descriptor with unique keys; a lookup
  of an absent key yields the null pointer, and a put replaces the value of a key that
  is present.
\<close>

definition HashMap_getByOid :: "(Oid \<times> ptr) list \<Rightarrow> Oid \<Rightarrow> ptr" where
  "HashMap_getByOid m k = (case map_of m k of None \<Rightarrow> NULL | Some v \<Rightarrow> v)"

definition HashMap_putByOid :: "(Oid \<times> ptr) list \<Rightarrow> Oid \<Rightarrow> ptr \<Rightarrow> (Oid \<times> ptr) list" where
  "HashMap_putByOid m k v = AList.update k v m"

text \<open>
  \<open>pfree\<close> and \<open>PgObject_free\<close> of an instance: its address leaves the heap. The JNI
  references that the finalizer deletes are not tracked. Freeing what is not allocated
  is a fault.
\<close>

definition PgObject_free :: "ptr \<Rightarrow> State \<Rightarrow> error + State" where
  "PgObject_free p st =
     (if p \<in> dom (heap st) then Inr (st\<lparr> heap := (heap st)(p := None) \<rparr>) else Inl Fault)"

text \<open>
  \<open>Function_create\<close>. The three catalog lookups come first, then the zeroed instance is
  allocated and its address given to the guest runtime. An error of the guest call frees
  the instance and is thrown again.
\<close>

definition Function_create ::
  "Host \<Rightarrow> Oid \<Rightarrow> bool \<Rightarrow> bool \<Rightarrow> bool \<Rightarrow> State \<Rightarrow> error + (ptr \<times> State)" where
  "Function_create host funcOid forTrigger forValidator checkBody st =
     (case PgObject_getValidTuple host PROCOID funcOid of
        Inl e \<Rightarrow> Inl e
      | Inr (prolang, pronamespace) \<Rightarrow>
          (case PgObject_getValidTuple host LANGOID prolang of
             Inl e \<Rightarrow> Inl e
           | Inr lng \<Rightarrow>
               (case PgObject_getValidTuple host NAMESPACEOID pronamespace of
                  Inl e \<Rightarrow> Inl e
                | Inr nsp \<Rightarrow>
                    (let self = Suc (brk st);
                         st0 = st\<lparr> heap := (heap st)(self \<mapsto> allocInstance), brk := self \<rparr>
                     in
                       (case Function_create_guest host self funcOid forTrigger forValidator
                               checkBody st0 of
                          Inl e \<Rightarrow> Inl e
                        | Inr (handle, st1) \<Rightarrow>
                            (case heap st1 self of
                               None \<Rightarrow> Inl Fault
                             | Some f \<Rightarrow>
                                 if NULL \<noteq> handle
                                 then Inr (self, st1\<lparr> heap := (heap st1)
                                             (self \<mapsto> f\<lparr> methodHandle := handle \<rparr>) \<rparr>)
                                 else if \<not> isUDT f
                                 then (if forValidator
                                       then Inr (NULL, st1\<lparr> heap := (heap st1)(self := None) \<rparr>)
                                       else Inl PgError)
                                 else Inr (self, st1)))))))"

text \<open>Storing into \<open>currentInvocation->function\<close>.\<close>

definition setCurrentFunction :: "ptr \<Rightarrow> State \<Rightarrow> error + State" where
  "setCurrentFunction func st =
     (case currentInvocation st of
        [] \<Rightarrow> Inl Fault
      | ic # previous \<Rightarrow>
          Inr (st\<lparr> currentInvocation := ic\<lparr> ic_function := func \<rparr> # previous \<rparr>))"

definition Function_getFunction ::
  "Host \<Rightarrow> Oid \<Rightarrow> bool \<Rightarrow> bool \<Rightarrow> bool \<Rightarrow> State \<Rightarrow> error + (ptr \<times> State)" where
  "Function_getFunction host funcOid forTrigger forValidator checkBody st =
     (let func = (if forValidator then NULL else HashMap_getByOid (s_funcMap st) funcOid) in
        (case (if NULL = func
               then (case Function_create host funcOid forTrigger forValidator checkBody st of
                       Inl e \<Rightarrow> Inl e
                     | Inr (func', st') \<Rightarrow>
                         if NULL \<noteq> func'
                         then Inr (func', st'\<lparr> s_funcMap :=
                                     HashMap_putByOid (s_funcMap st') funcOid func' \<rparr>)
                         else Inr (func', st'))
               else Inr (func, st)) of
           Inl e \<Rightarrow> Inl e
         | Inr (func1, st1) \<Rightarrow>
             (case setCurrentFunction func1 st1 of
                Inl e \<Rightarrow> Inl e
              | Inr st2 \<Rightarrow> Inr (func1, st2))))"

text \<open>\<open>Function_inUse\<close>: the walk from the innermost frame outward.\<close>

fun inUse_walk :: "Invocation list \<Rightarrow> ptr \<Rightarrow> bool" where
  "inUse_walk [] func = False"
| "inUse_walk (ic # previous) func =
     (if ic_function ic = func then True else inUse_walk previous func)"

definition Function_inUse :: "State \<Rightarrow> ptr \<Rightarrow> bool" where
  "Function_inUse st func = inUse_walk (currentInvocation st) func"

text \<open>
  The loop of \<open>Function_clearFunctionCache\<close> over the entries of the old map, in the
  order the iterator yields them; \<open>s_funcMap\<close> is already the new map.
\<close>

fun clear_entries :: "(Oid \<times> ptr) list \<Rightarrow> State \<Rightarrow> error + State" where
  "clear_entries [] st = Inr st"
| "clear_entries ((key, func) # entries) st =
     (if func \<noteq> NULL
      then (if Function_inUse st func
            then clear_entries entries
                   (st\<lparr> s_funcMap := HashMap_putByOid (s_funcMap st) key func \<rparr>)
            else (case PgObject_free func st of
                    Inl e \<Rightarrow> Inl e
                  | Inr st' \<Rightarrow> clear_entries entries st'))
      else clear_entries entries st)"

definition Function_clearFunctionCache :: "State \<Rightarrow> error + State" where
  "Function_clearFunctionCache st = clear_entries (s_funcMap st) (st\<lparr> s_funcMap := [] \<rparr>)"

section \<open>Function\_isCurrentReadOnly\<close>

definition Function_isCurrentReadOnly :: "State \<Rightarrow> error + bool" where
  "Function_isCurrentReadOnly st =
     (case currentInvocation st of
        [] \<Rightarrow> Inl Fault
      | ic # previous \<Rightarrow>
          if ic_function ic = 0 then Inr True
          else (case heap st (ic_function ic) of
                  None \<Rightarrow> Inl Fault
                | Some f \<Rightarrow> Inr (readOnly f)))"

section \<open>Notions used to state the properties\<close>

text \<open>How many of a list of parameter types are passed as primitives, how many as references.\<close>

definition countPrim :: "Type list \<Rightarrow> nat" where
  "countPrim ts = length (filter passAsPrimitive ts)"

definition countRef :: "Type list \<Rightarrow> nat" where
  "countRef ts = length (filter (\<lambda>t. \<not> passAsPrimitive t) ts)"

text \<open>
  The counters of a Function agree with its parameter types, \<open>extra\<close> being the reference
  slots counted beyond the parameters.
\<close>

definition counts_agree :: "nat \<Rightarrow> Function \<Rightarrow> bool" where
  "counts_agree extra f \<longleftrightarrow>
     unat (numPrimParams f) = countPrim (paramTypes f) \<and>
     unat (numRefParams f) = countRef (paramTypes f) + extra \<and>
     length (paramTypes f) + extra < 65536"

text \<open>
  A reconciliation of parameter \<open>index\<close> that puts the type of a primitive array where
  the type of a primitive scalar was: \<open>g\<close> is the Function before and \<open>g'\<close> after.
\<close>

definition array_for_scalar :: "Function \<Rightarrow> Function \<Rightarrow> int \<Rightarrow> bool" where
  "array_for_scalar g g' index \<longleftrightarrow>
     0 \<le> index \<and> passAsPrimitive (paramTypes g ! nat index) \<and>
     Type_isPrimitive (paramTypes g' ! nat index) \<and>
     Type_getElementType (paramTypes g' ! nat index) \<noteq> None"

text \<open>
  \<open>reconciled ops f g\<close>: \<open>g\<close> is \<open>f\<close> after any number of successful \<open>_reconcileTypes\<close>
  calls, none of which puts a primitive array in the place of a primitive scalar.
\<close>

inductive reconciled :: "TypeOps \<Rightarrow> Function \<Rightarrow> Function \<Rightarrow> bool" for ops :: TypeOps where
  reconciled_none: "reconciled ops f f"
| reconciled_call:
    "reconciled ops f g \<Longrightarrow>
     reconcileTypes ops g resolvedTypes explicitTypes index = Inr (g', resolvedTypes') \<Longrightarrow>
     \<not> array_for_scalar g g' index \<Longrightarrow>
     reconciled ops f g'"

section \<open>A small world to run the model in\<close>

text \<open>
  Five Types as Type.c would describe them: \<open>int\<close>, \<open>int[]\<close>, \<open>java.lang.Integer\<close>,
  \<open>java.lang.String\<close>, and a composite return type that is an out-parameter.
\<close>

definition ex_int :: Type where
  "ex_int = Type 23 ''int'' True None False False"

definition ex_intArray :: Type where
  "ex_intArray = Type 1007 ''int[]'' True (Some ex_int) False False"

definition ex_Integer :: Type where
  "ex_Integer = Type 23 ''java.lang.Integer'' False None False False"

definition ex_String :: Type where
  "ex_String = Type 25 ''java.lang.String'' False None False False"

definition ex_ResultSet :: Type where
  "ex_ResultSet = Type 2249 ''java.sql.ResultSet'' False None False True"

text \<open>
  Type functions for them. A Type replaces only itself; a coercer presents the
  replacement's Java side, the input one under the Oid of the original and the output
  one under the Oid of the replacement.
\<close>

definition ex_fromJavaType :: "Oid \<Rightarrow> string option \<Rightarrow> error + Type" where
  "ex_fromJavaType typeId javaName =
     (if javaName = Some ''int'' then Inr ex_int
      else if javaName = Some ''int[]'' then Inr ex_intArray
      else if javaName = Some ''java.lang.Integer'' then Inr ex_Integer
      else if javaName = Some ''java.lang.String'' then Inr ex_String
      else if javaName = Some ''java.sql.ResultSet'' then Inr ex_ResultSet
      else Inl PgError)"

definition ex_fromOid :: "Oid \<Rightarrow> jobject \<Rightarrow> error + Type" where
  "ex_fromOid typeId tm =
     (if typeId = 23 then Inr ex_int
      else if typeId = 25 then Inr ex_String
      else if typeId = 1007 then Inr ex_intArray
      else if typeId = 2249 then Inr ex_ResultSet
      else Inl PgError)"

definition ex_coerceIn :: "Type \<Rightarrow> Type \<Rightarrow> error + Type" where
  "ex_coerceIn repl orig =
     Inr (Type (Type_getOid orig) (Type_getJavaTypeName repl) (Type_isPrimitive repl)
            (Type_getElementType repl) False False)"

definition ex_coerceOut :: "Type \<Rightarrow> Type \<Rightarrow> error + Type" where
  "ex_coerceOut repl orig =
     Inr (Type (Type_getOid repl) (Type_getJavaTypeName repl) (Type_isPrimitive repl)
            (Type_getElementType repl) False False)"

definition ex_ops :: TypeOps where
  "ex_ops = \<lparr> Type_fromOid = ex_fromOid, Type_fromJavaType = ex_fromJavaType,
     Type_canReplaceType = (\<lambda>repl orig. repl = orig),
     Type_getCoerceIn = ex_coerceIn, Type_getCoerceOut = ex_coerceOut,
     Type_getRealType = (\<lambda>t typeId tm. Inr t) \<rparr>"

text \<open>
  Descriptors. \<open>ex_f_stored\<close> is \<open>f(int, String)\<close> returning \<open>int\<close> as
  \<open>_storeToNonUDT\<close> leaves it; \<open>ex_f_boxed\<close> is the same after parameter 0 has been
  reconciled to \<open>java.lang.Integer\<close>, \<open>ex_f_array\<close> after it has been reconciled to
  \<open>int[]\<close>. \<open>ex_f_record\<close> is \<open>f(String)\<close> with an out-parameter return type.
  \<open>ex_f3\<close> is \<open>f(int, String, int)\<close>, \<open>ex_f_srf\<close> a set-returning function of one
  \<open>int\<close>, \<open>ex_f_trigger\<close> a trigger function whose call target is 7 and
  \<open>ex_f_failing\<close> one whose call target is 13.
\<close>

definition ex_f_stored :: Function where
  "ex_f_stored = allocInstance\<lparr> clazz := 2, schemaLoader := 1,
     numRefParams := 1, numPrimParams := 1, paramTypes := [ex_int, ex_String],
     returnType := Some ex_int \<rparr>"

definition ex_f_boxed :: Function where
  "ex_f_boxed = ex_f_stored\<lparr> paramTypes := [ex_Integer, ex_String],
     numRefParams := 2, numPrimParams := 0 \<rparr>"

definition ex_f_array :: Function where
  "ex_f_array = ex_f_stored\<lparr>
     paramTypes := [Type 23 ''int[]'' True (Some ex_int) False False, ex_String],
     numRefParams := 0, numPrimParams := 2 \<rparr>"

definition ex_f_record :: Function where
  "ex_f_record = allocInstance\<lparr> clazz := 2, schemaLoader := 1, numRefParams := 2,
     paramTypes := [ex_String], returnType := Some ex_ResultSet \<rparr>"

definition ex_f_record_srf :: Function where
  "ex_f_record_srf = ex_f_record\<lparr> isMultiCall := True, numRefParams := 1 \<rparr>"

definition ex_f3 :: Function where
  "ex_f3 = allocInstance\<lparr> clazz := 2, schemaLoader := 1,
     numRefParams := 1, numPrimParams := 2, paramTypes := [ex_int, ex_String, ex_int],
     returnType := Some ex_int, methodHandle := 7 \<rparr>"

definition ex_f_srf :: Function where
  "ex_f_srf = allocInstance\<lparr> clazz := 2, schemaLoader := 1, isMultiCall := True,
     numRefParams := 0, numPrimParams := 1, paramTypes := [ex_int],
     returnType := Some ex_String, methodHandle := 7 \<rparr>"

definition ex_f_trigger :: Function where
  "ex_f_trigger = allocInstance\<lparr> clazz := 2, schemaLoader := 1,
     returnType := Some ex_String, methodHandle := 7 \<rparr>"

definition ex_f_failing :: Function where
  "ex_f_failing = ex_f_trigger\<lparr> methodHandle := 13 \<rparr>"

text \<open>The array of resolved type names that goes with \<open>ex_f_stored\<close>.\<close>

definition ex_resolved :: "jstring list" where
  "ex_resolved = [Some ''int'', Some ''java.lang.String'', Some ''int'']"

text \<open>
  A host. Coercion is the identity on the bits; the guest code behind call target 13
  fails, every other one returns and sets the null flag; the trigger data object is the
  address of the host's trigger data; the guest's \<open>Function.create\<close> leaves the instance
  untouched when only validating without the body, and otherwise stores \<open>f(String)\<close>
  returning \<open>int\<close> and answers with call target 7.
\<close>

definition ex_invoke ::
  "Type \<Rightarrow> Function \<Rightarrow> FunctionCallInfo \<Rightarrow> State
     \<Rightarrow> error + (Datum \<times> FunctionCallInfo \<times> State)" where
  "ex_invoke t self fcinfo st =
     Inr (0, fcinfo\<lparr> isnull := True \<rparr>, st\<lparr> exceptionPending := (methodHandle self = 13) \<rparr>)"

definition ex_create_guest ::
  "ptr \<Rightarrow> Oid \<Rightarrow> bool \<Rightarrow> bool \<Rightarrow> bool \<Rightarrow> State \<Rightarrow> error + (jobject \<times> State)" where
  "ex_create_guest self funcOid forTrigger forValidator checkBody st =
     (if forValidator \<and> \<not> checkBody then Inr (NULL, st)
      else
        (case heap st self of
           None \<Rightarrow> Inl Fault
         | Some f \<Rightarrow>
             (case storeToNonUDT ex_ops f 1 2 0 0 0 1 23 None [25] None [None, None] of
                Inl e \<Rightarrow> Inl e
              | Inr (f', out, r) \<Rightarrow> Inr (7, st\<lparr> heap := (heap st)(self \<mapsto> f') \<rparr>))))"

definition ex_host :: Host where
  "ex_host = \<lparr> Type_coerceDatum = (\<lambda>t d st. Inr (d, st)),
     Type_invoke = ex_invoke, Type_invokeSRF = ex_invoke,
     UDT_function = (\<lambda>tag u fcinfo st. Inl PgError),
     Invocation_assertDisconnect = (\<lambda>st. st),
     Invocation_assertConnect = (\<lambda>st. st),
     Invocation_switchToUpperContext = (\<lambda>st. (CurrentMemoryContext st, st)),
     pljava_TriggerData_create = (\<lambda>td. td),
     pljava_TriggerData_getTriggerReturnTuple = (\<lambda>jtd st. Inr (jtd, True, st)),
     PgObject_getValidTuple = (\<lambda>c k. Inr (1, 1)),
     Function_create_guest = ex_create_guest \<rparr>"

text \<open>
  A process state with one invocation frame and nothing else: the parameter area is
  zero, the registry and the heap are empty.
\<close>

definition ex_frame :: Invocation where
  "ex_frame = \<lparr> ic_function = NULL, pushedFrame = False, triggerData = NULL \<rparr>"

definition ex_state :: State where
  "ex_state = \<lparr> s_countCheck = 0, s_primitiveParameters = replicate 256 0,
     s_referenceParameters = replicate 255 0, frames = [],
     currentInvocation = [ex_frame], s_funcMap = [], heap = Map.empty, brk = 0,
     exceptionPending = False, CurrentMemoryContext = 1 \<rparr>"

text \<open>
  States and calls: \<open>ex_state5\<close> has 5 in primitive slot 0; \<open>ex_state_in_flight\<close> is the
  area as a first call of \<open>ex_f_srf\<close> with argument 5 leaves it. \<open>ex_fcinfo_next\<close> is a
  later call of that set-returning function, \<open>ex_fcinfo3\<close> a call of \<open>ex_f3\<close> with the
  arguments \<open>(5, null, null)\<close>.
\<close>

definition ex_state5 :: State where
  "ex_state5 = ex_state\<lparr> s_primitiveParameters := (replicate 256 0)[0 := 5] \<rparr>"

definition ex_state_in_flight :: State where
  "ex_state_in_flight = ex_state5\<lparr> s_countCheck := 1 \<rparr>"

definition ex_fcinfo_next :: FunctionCallInfo where
  "ex_fcinfo_next = \<lparr> isnull = False, args = [(5, False)], fc_context = NULL, fn_extra = 99,
     fn_expr_argtypes = [23], fn_expr_rettype = 25 \<rparr>"

definition ex_fcinfo3 :: FunctionCallInfo where
  "ex_fcinfo3 = \<lparr> isnull = False, args = [(5, False), (0, True), (0, True)],
     fc_context = NULL, fn_extra = NULL, fn_expr_argtypes = [23, 25, 23],
     fn_expr_rettype = 23 \<rparr>"

text \<open>
  A trigger call: \<open>ex_fcinfo_trigger\<close> carries trigger data at address 9, and
  \<open>ex_state_trigger\<close> is the state in which the trigger function is then invoked.
\<close>

definition ex_fcinfo_trigger :: FunctionCallInfo where
  "ex_fcinfo_trigger = \<lparr> isnull = False, args = [], fc_context = 9, fn_extra = NULL,
     fn_expr_argtypes = [], fn_expr_rettype = 0 \<rparr>"

definition ex_state_trigger :: State where
  "ex_state_trigger = ex_state\<lparr> s_countCheck := 256,
     s_referenceParameters := (replicate 255 0)[0 := 9],
     currentInvocation := [ex_frame\<lparr> triggerData := 9 \<rparr>] \<rparr>"

text \<open>
  Registries. \<open>ex_state_three\<close> holds three descriptors: the third is executing in the
  innermost frame, the second in the frame that called it, the first in none;
  \<open>ex_state_cleared\<close> is what invalidation leaves of it. \<open>ex_state_cached\<close> is
  \<open>ex_state\<close> after the first lookup of procedure 42, whose descriptor is
  \<open>ex_f_String\<close>; \<open>ex_state_validated\<close> and \<open>ex_state_checked\<close> follow a validator
  call without and with the check of the body. In \<open>ex_state_nested\<close> that descriptor is
  executing and has called the validator for procedure 42 in a frame of its own;
  \<open>ex_state_replaced\<close> is the state after that validator call, with the check of the
  body, has put a new descriptor under the key.
\<close>

definition ex_state_three :: State where
  "ex_state_three = ex_state\<lparr> s_funcMap := [(10, 1), (11, 2), (12, 3)],
     heap := [1 \<mapsto> ex_f3, 2 \<mapsto> ex_f_srf, 3 \<mapsto> ex_f_trigger], brk := 3,
     currentInvocation := [ex_frame\<lparr> ic_function := 3 \<rparr>, ex_frame\<lparr> ic_function := 2 \<rparr>] \<rparr>"

definition ex_state_cleared :: State where
  "ex_state_cleared = ex_state_three\<lparr> s_funcMap := [(11, 2), (12, 3)],
     heap := [2 \<mapsto> ex_f_srf, 3 \<mapsto> ex_f_trigger] \<rparr>"

definition ex_f_String :: Function where
  "ex_f_String = allocInstance\<lparr> clazz := 2, schemaLoader := 1, numRefParams := 1,
     paramTypes := [ex_String], returnType := Some ex_int, methodHandle := 7 \<rparr>"

definition ex_state_cached :: State where
  "ex_state_cached = ex_state\<lparr> s_funcMap := [(42, 1)], heap := [1 \<mapsto> ex_f_String], brk := 1,
     currentInvocation := [ex_frame\<lparr> ic_function := 1 \<rparr>] \<rparr>"

definition ex_state_validated :: State where
  "ex_state_validated = ex_state_cached\<lparr> heap := [1 \<mapsto> ex_f_String](2 := None), brk := 2,
     currentInvocation := [ex_frame] \<rparr>"

definition ex_state_checked :: State where
  "ex_state_checked = ex_state_cached\<lparr> s_funcMap := [(42, 2)],
     heap := [1 \<mapsto> ex_f_String, 2 \<mapsto> ex_f_String], brk := 2,
     currentInvocation := [ex_frame\<lparr> ic_function := 2 \<rparr>] \<rparr>"

definition ex_state_nested :: State where
  "ex_state_nested = ex_state_cached\<lparr>
     currentInvocation := [ex_frame, ex_frame\<lparr> ic_function := 1 \<rparr>] \<rparr>"

definition ex_state_replaced :: State where
  "ex_state_replaced = ex_state_nested\<lparr> s_funcMap := [(42, 2)],
     heap := [1 \<mapsto> ex_f_String, 2 \<mapsto> ex_f_String], brk := 2,
     currentInvocation := [ex_frame\<lparr> ic_function := 2 \<rparr>, ex_frame\<lparr> ic_function := 1 \<rparr>] \<rparr>"

text \<open>
  \<open>ex_state_stale\<close> has values left in primitive slot 1 and reference slot 0 and no call
  in flight; \<open>ex_state_marshalled\<close> is the state in which \<open>ex_f3\<close> is then invoked with
  the arguments of \<open>ex_fcinfo3\<close>.
\<close>

definition ex_state_stale :: State where
  "ex_state_stale = ex_state\<lparr> s_primitiveParameters := (replicate 256 0)[1 := 77],
     s_referenceParameters := (replicate 255 0)[0 := 88] \<rparr>"

definition ex_state_marshalled :: State where
  "ex_state_marshalled = ex_state_stale\<lparr> s_countCheck := 258,
     s_primitiveParameters := (replicate 256 0)[1 := 77, 0 := 5, 1 := 0] \<rparr>"

text \<open>The descriptors that an invalidation releases: registered, not null, not in use.\<close>

definition freed :: "(Oid \<times> ptr) list \<Rightarrow> State \<Rightarrow> ptr set" where
  "freed es s = {p. p \<noteq> NULL \<and> p \<in> snd ` set es \<and> \<not> Function_inUse s p}"

section \<open>Lemmas on the loops and the counters\<close>

lemma for_loop_append:
  "for_loop body (xs @ ys) s =
     (case for_loop body xs s of Inl e \<Rightarrow> Inl e | Inr s' \<Rightarrow> for_loop body ys s')"
  by (induction xs arbitrary: s) (auto split: sum.splits)

lemma for_loop_snoc:
  "for_loop body (xs @ [n]) s =
     (case for_loop body xs s of Inl e \<Rightarrow> Inl e | Inr s' \<Rightarrow> body s' n)"
  by (simp add: for_loop_append split: sum.splits)

lemma store_paramType_length:
  "store_paramType ops tm oids pj pts i = Inr pts' \<Longrightarrow> length pts' = Suc (length pts)"
  by (auto simp: store_paramType_def split: if_splits sum.splits option.splits)

lemma store_paramTypes_length:
  "for_loop (store_paramType ops tm oids pj) [0 ..< n] [] = Inr pts \<Longrightarrow> length pts = n"
proof (induction n arbitrary: pts)
  case 0
  then show ?case by simp
next
  case (Suc n)
  then show ?case
    by (auto simp: for_loop_snoc split: sum.splits dest: store_paramType_length)
qed

lemma store_count_loop:
  "for_loop (store_count pts) [0 ..< n] (out, 0, 0) = Inr (out', r, p) \<Longrightarrow> n \<le> length pts \<Longrightarrow>
     r = of_nat (countRef (take n pts)) \<and> p = of_nat (countPrim (take n pts))"
proof (induction n arbitrary: out' r p)
  case 0
  then show ?case by (simp add: countRef_def countPrim_def)
next
  case (Suc n)
  from Suc.prems obtain o1 r1 p1 where
    l: "for_loop (store_count pts) [0 ..< n] (out, 0, 0) = Inr (o1, r1, p1)" and
    b: "store_count pts (o1, r1, p1) n = Inr (out', r, p)"
    by (auto simp: for_loop_snoc split: sum.splits)
  from Suc.IH [OF l] Suc.prems have
    ih: "r1 = of_nat (countRef (take n pts))" "p1 = of_nat (countPrim (take n pts))" by auto
  from Suc.prems have t: "take (Suc n) pts = take n pts @ [pts ! n]"
    by (simp add: take_Suc_conv_app_nth)
  from b ih show ?case
    by (auto simp: store_count_def t countRef_def countPrim_def split: sum.splits if_splits)
qed

lemma storeToNonUDT_Inr:
  assumes "storeToNonUDT ops self sl cl ro mc tm numParams rto rjt oids pjts out = Inr (f, out', r)"
  shows "\<exists>rt pts o1 rp pp.
           (if 0 < numParams
            then for_loop (store_paramType ops tm oids pjts) [0 ..< nat numParams] [] = Inr pts
               \<and> for_loop (store_count pts) [0 ..< nat numParams] (out, 0, 0) = Inr (o1, rp, pp)
            else pts = paramTypes self \<and> rp = 0 \<and> pp = 0)
           \<and> r = Type_isOutParameter rt
           \<and> f = self\<lparr> isUDT := False, readOnly := (JNI_TRUE = ro), schemaLoader := sl,
                  clazz := cl, isMultiCall := (JNI_TRUE = mc), typeMap := tm,
                  returnType := Some rt, paramTypes := pts,
                  numRefParams := (if r \<and> JNI_TRUE \<noteq> mc then rp + 1 else rp),
                  numPrimParams := pp \<rparr>"
  using assms unfolding storeToNonUDT_def Let_def
  by (simp split: sum.splits option.splits prod.splits if_splits) blast+

lemma storeToNonUDT_result:
  assumes "storeToNonUDT ops self sl cl ro mc tm numParams rto rjt oids pjts out = Inr (f, out', r)"
  shows "\<exists>rt. returnType f = Some rt \<and> r = Type_isOutParameter rt
           \<and> isMultiCall f = (mc = JNI_TRUE) \<and> \<not> isUDT f
           \<and> (if 0 < numParams then length (paramTypes f) = nat numParams
               else paramTypes f = paramTypes self)
           \<and> numPrimParams f = of_nat (countPrim (take (nat numParams) (paramTypes f)))
           \<and> numRefParams f = of_nat (countRef (take (nat numParams) (paramTypes f))
                                        + (if r \<and> \<not> isMultiCall f then 1 else 0))"
proof -
  from storeToNonUDT_Inr [OF assms] obtain rt pts o1 rp pp where
    l: "if 0 < numParams
            then for_loop (store_paramType ops tm oids pjts) [0 ..< nat numParams] [] = Inr pts
               \<and> for_loop (store_count pts) [0 ..< nat numParams] (out, 0, 0) = Inr (o1, rp, pp)
            else pts = paramTypes self \<and> rp = 0 \<and> pp = 0" and
    r: "r = Type_isOutParameter rt" and
    f: "f = self\<lparr> isUDT := False, readOnly := (JNI_TRUE = ro), schemaLoader := sl,
                  clazz := cl, isMultiCall := (JNI_TRUE = mc), typeMap := tm,
                  returnType := Some rt, paramTypes := pts,
                  numRefParams := (if r \<and> JNI_TRUE \<noteq> mc then rp + 1 else rp),
                  numPrimParams := pp \<rparr>"
    by blast
  have c: "rp = of_nat (countRef (take (nat numParams) pts)) \<and>
           pp = of_nat (countPrim (take (nat numParams) pts)) \<and>
           (if 0 < numParams then length pts = nat numParams else pts = paramTypes self)"
  proof (cases "0 < numParams")
    case True
    with l have pts: "for_loop (store_paramType ops tm oids pjts) [0 ..< nat numParams] [] = Inr pts"
      and cnt: "for_loop (store_count pts) [0 ..< nat numParams] (out, 0, 0) = Inr (o1, rp, pp)"
      by auto
    from store_paramTypes_length [OF pts] have len: "length pts = nat numParams" .
    from store_count_loop [OF cnt] len True show ?thesis by auto
  next
    case False
    with l show ?thesis by (simp add: countRef_def countPrim_def)
  qed
  from f have g: "returnType f = Some rt" "isMultiCall f = (mc = JNI_TRUE)" "\<not> isUDT f"
    "paramTypes f = pts" "numPrimParams f = pp"
    "numRefParams f = (if r \<and> JNI_TRUE \<noteq> mc then rp + 1 else rp)"
    by auto
  from c g r show ?thesis by auto
qed

lemma countRef_le: "countRef ts \<le> length ts"
  by (simp add: countRef_def)

lemma countPrim_le: "countPrim ts \<le> length ts"
  by (simp add: countPrim_def)

lemma u16_of_nat: "n < 65536 \<Longrightarrow> unat (of_nat n :: 16 word) = n"
  by (simp add: unat_of_nat)

lemma storeToNonUDT_counts:
  assumes st: "storeToNonUDT ops self sl cl ro mc tm numParams rto rjt oids pjts out = Inr (f, out', r)"
    and small: "numParams < 65535"
  shows "unat (numPrimParams f) = countPrim (take (nat numParams) (paramTypes f))"
    and "unat (numRefParams f) = countRef (take (nat numParams) (paramTypes f))
           + (if r \<and> \<not> isMultiCall f then 1 else 0)"
proof -
  let ?ts = "take (nat numParams) (paramTypes f)"
  from storeToNonUDT_result [OF st] have
    p: "numPrimParams f = of_nat (countPrim ?ts)" and
    n: "numRefParams f = of_nat (countRef ?ts + (if r \<and> \<not> isMultiCall f then 1 else 0))"
    by blast+
  have l: "length ?ts \<le> nat numParams" by simp
  from l small countPrim_le [of ?ts] have "countPrim ?ts < 65536" by linarith
  with p show "unat (numPrimParams f) = countPrim ?ts" by (simp only: u16_of_nat)
  from l small countRef_le [of ?ts]
  have "countRef ?ts + (if r \<and> \<not> isMultiCall f then 1 else 0) < 65536" by auto
  with n show "unat (numRefParams f) = countRef ?ts + (if r \<and> \<not> isMultiCall f then 1 else 0)"
    by (simp only: u16_of_nat)
qed

lemma countPrim_update:
  "i < length ts \<Longrightarrow>
     countPrim (ts[i := t]) + (if passAsPrimitive (ts ! i) then 1 else 0)
       = countPrim ts + (if passAsPrimitive t then 1 else 0)"
proof (induction ts arbitrary: i)
  case Nil
  then show ?case by simp
next
  case (Cons a ts)
  then show ?case by (cases i) (auto simp: countPrim_def)
qed

lemma countRef_countPrim: "countRef ts + countPrim ts = length ts"
  unfolding countRef_def countPrim_def by (induction ts) auto

lemma countPrim_pos: "i < length ts \<Longrightarrow> passAsPrimitive (ts ! i) \<Longrightarrow> 0 < countPrim ts"
  unfolding countPrim_def by (auto simp: filter_empty_conv)

lemma countRef_pos: "i < length ts \<Longrightarrow> \<not> passAsPrimitive (ts ! i) \<Longrightarrow> 0 < countRef ts"
  unfolding countRef_def by (auto simp: filter_empty_conv)

lemma reconcileTypes_Inr:
  assumes "reconcileTypes ops g res exp idx = Inr (g', res')"
  shows "((idx = -1 \<or> idx = -2) \<and> (\<exists>t. g' = g\<lparr> returnType := Some t \<rparr>)) \<or>
         (idx \<noteq> -1 \<and> idx \<noteq> -2 \<and> 0 \<le> idx \<and> nat idx < length (paramTypes g) \<and>
            (\<exists>repl. g' = reconcile_store g False idx (paramTypes g ! nat idx) repl))"
  using assms unfolding reconcileTypes_def Let_def reconcile_origType_def
  by (auto simp: reconcile_store_def split: sum.splits option.splits if_splits)

lemma u16_inc: "unat (w :: 16 word) + 1 < 65536 \<Longrightarrow> unat (w + 1) = unat w + 1"
  by (simp add: unat_word_ariths)

lemma u16_dec: "0 < unat (w :: 16 word) \<Longrightarrow> unat (w - 1) = unat w - 1"
  by (metis unat_minus_one unat_eq_zero less_numeral_extra(3))

lemma reconcile_store_counts:
  assumes ca: "counts_agree extra g" and i: "0 \<le> idx" "nat idx < length (paramTypes g)"
    and g': "g' = reconcile_store g False idx (paramTypes g ! nat idx) repl"
    and na: "\<not> array_for_scalar g g' idx"
  shows "counts_agree extra g'"
proof -
  let ?ts = "paramTypes g" and ?o = "paramTypes g ! nat idx"
  have pts: "paramTypes g' = ?ts[nat idx := repl]"
    using g' by (simp add: reconcile_store_def Let_def)
  from ca have p: "unat (numPrimParams g) = countPrim ?ts"
    and r: "unat (numRefParams g) = countRef ?ts + extra"
    and b: "length ?ts + extra < 65536" by (auto simp: counts_agree_def)
  have up: "countPrim (?ts[nat idx := repl]) + (if passAsPrimitive ?o then 1 else 0)
       = countPrim ?ts + (if passAsPrimitive repl then 1 else 0)"
    using countPrim_update [OF i(2)] .
  have sum: "countRef (?ts[nat idx := repl]) + countPrim (?ts[nat idx := repl]) = length ?ts"
    using countRef_countPrim [of "?ts[nat idx := repl]"] by simp
  have sum0: "countRef ?ts + countPrim ?ts = length ?ts" by (rule countRef_countPrim)
  consider (same) "passAsPrimitive ?o = passAsPrimitive repl"
    | (toPrim) "\<not> passAsPrimitive ?o" "passAsPrimitive repl"
    | (toRef) "passAsPrimitive ?o" "\<not> passAsPrimitive repl" by blast
  then show ?thesis
  proof cases
    case same
    then have "numPrimParams g' = numPrimParams g" "numRefParams g' = numRefParams g"
      using g' by (auto simp: reconcile_store_def Let_def)
    with same up sum sum0 p r b pts show ?thesis by (auto simp: counts_agree_def)
  next
    case toPrim
    then have ip: "Type_isPrimitive repl" by (simp add: passAsPrimitive_def)
    with toPrim have n: "numPrimParams g' = numPrimParams g + 1" "numRefParams g' = numRefParams g - 1"
      using g' by (auto simp: reconcile_store_def Let_def)
    from countRef_pos [OF i(2) toPrim(1)] r have "0 < unat (numRefParams g)" by simp
    then have d: "unat (numRefParams g - 1) = unat (numRefParams g) - 1" by (rule u16_dec)
    from p sum0 b have "unat (numPrimParams g) + 1 < 65536"
      using countRef_pos [OF i(2) toPrim(1)] by simp
    then have e: "unat (numPrimParams g + 1) = unat (numPrimParams g) + 1" by (rule u16_inc)
    from toPrim up sum sum0 p r b pts n d e countRef_pos [OF i(2) toPrim(1)]
    show ?thesis by (auto simp: counts_agree_def)
  next
    case toRef
    have "\<not> Type_isPrimitive repl"
    proof
      assume "Type_isPrimitive repl"
      with toRef have "Type_getElementType repl \<noteq> None" by (simp add: passAsPrimitive_def)
      with \<open>Type_isPrimitive repl\<close> toRef i pts have "array_for_scalar g g' idx"
        by (simp add: array_for_scalar_def)
      with na show False by simp
    qed
    with toRef have n: "numPrimParams g' = numPrimParams g - 1" "numRefParams g' = numRefParams g + 1"
      using g' by (auto simp: reconcile_store_def Let_def)
    from countPrim_pos [OF i(2) toRef(1)] p have "0 < unat (numPrimParams g)" by simp
    then have d: "unat (numPrimParams g - 1) = unat (numPrimParams g) - 1" by (rule u16_dec)
    from r sum0 b have "unat (numRefParams g) + 1 < 65536"
      using countPrim_pos [OF i(2) toRef(1)] by simp
    then have e: "unat (numRefParams g + 1) = unat (numRefParams g) + 1" by (rule u16_inc)
    from toRef up sum sum0 p r b pts n d e countPrim_pos [OF i(2) toRef(1)]
    show ?thesis by (auto simp: counts_agree_def)
  qed
qed

lemma reconcileTypes_counts:
  assumes "counts_agree extra g" "reconcileTypes ops g res exp idx = Inr (g', res')"
    "\<not> array_for_scalar g g' idx"
  shows "counts_agree extra g'"
proof -
  from reconcileTypes_Inr [OF assms(2)]
  consider (ret) t where "g' = g\<lparr> returnType := Some t \<rparr>"
    | (par) repl where "0 \<le> idx" "nat idx < length (paramTypes g)"
        "g' = reconcile_store g False idx (paramTypes g ! nat idx) repl"
    by blast
  then show ?thesis
  proof cases
    case ret
    with assms(1) show ?thesis by (simp add: counts_agree_def)
  next
    case par
    with assms show ?thesis by (blast intro: reconcile_store_counts)
  qed
qed

lemma reconciled_counts:
  "reconciled ops f g \<Longrightarrow> counts_agree extra f \<Longrightarrow> counts_agree extra g"
  by (induction rule: reconciled.induct) (auto intro: reconcileTypes_counts)

lemma reconcileTypes_length:
  "reconcileTypes ops g res exp idx = Inr (g', res') \<Longrightarrow>
     length (paramTypes g') = length (paramTypes g)"
  by (drule reconcileTypes_Inr) (auto simp: reconcile_store_def Let_def)

lemma reconciled_length:
  "reconciled ops f g \<Longrightarrow> length (paramTypes g) = length (paramTypes f)"
  by (induction rule: reconciled.induct) (auto dest: reconcileTypes_length)

lemma storeToNonUDT_counts_agree:
  assumes st: "storeToNonUDT ops self sl cl ro mc tm numParams rto rjt oids pjts out = Inr (f, out', r)"
    and empty: "paramTypes self = []" and small: "numParams < 65535"
  shows "counts_agree (if r \<and> \<not> isMultiCall f then 1 else 0) f"
    and "length (paramTypes f) = nat numParams"
proof -
  from storeToNonUDT_result [OF st] empty
  show len: "length (paramTypes f) = nat numParams" by (auto split: if_splits)
  then have "take (nat numParams) (paramTypes f) = paramTypes f" by simp
  with storeToNonUDT_counts [OF st small] len small
  show "counts_agree (if r \<and> \<not> isMultiCall f then 1 else 0) f"
    by (auto simp: counts_agree_def)
qed

section \<open>Evaluating the model\<close>

lemmas ex_defs = ex_ops_def ex_fromOid_def ex_fromJavaType_def ex_coerceIn_def ex_coerceOut_def
  ex_int_def ex_intArray_def ex_Integer_def ex_String_def ex_ResultSet_def

lemmas eval_defs = storeToNonUDT_def store_paramType_def store_count_def
  JNI_setObjectArrayElement_def JNI_getObjectArrayElement_def passAsPrimitive_def
  JNI_TRUE_def allocInstance_def NULL_def InvalidOid_def ex_defs Let_def
  reconcileTypes_def reconcile_origType_def reconcile_coerce_def reconcile_store_def

lemma ex_store_record:
  "storeToNonUDT ex_ops allocInstance 1 2 0 0 0 1 2249 None [25] None [None, None]
     = Inr (ex_f_record, [Some ''java.lang.String'', Some ''java.sql.ResultSet''], True)"
  by (simp add: eval_defs ex_f_record_def)

lemma ex_store_record_srf:
  "storeToNonUDT ex_ops allocInstance 1 2 0 1 0 1 2249 None [25] None [None, None]
     = Inr (ex_f_record_srf, [Some ''java.lang.String'', Some ''java.sql.ResultSet''], True)"
  by (simp add: eval_defs ex_f_record_def ex_f_record_srf_def)

lemma ex_store_stored:
  "storeToNonUDT ex_ops allocInstance 1 2 0 0 0 2 23 None [23, 25] None [None, None, None]
     = Inr (ex_f_stored, [Some ''int'', Some ''java.lang.String'', Some ''int''], False)"
  by (simp add: eval_defs ex_f_stored_def upt_rec)

lemma ex_reconcile_boxed:
  "reconcileTypes ex_ops ex_f_stored [Some ''int'', Some ''java.lang.String'', Some ''int'']
     [Some ''java.lang.Integer'', None, None] 0
    = Inr (ex_f_boxed, [Some ''java.lang.Integer'', Some ''java.lang.String'', Some ''int''])"
  by (simp add: eval_defs ex_f_stored_def ex_f_boxed_def)

lemma ex_reconcile_array:
  "reconcileTypes ex_ops ex_f_stored [Some ''int'', Some ''java.lang.String'', Some ''int'']
     [Some ''int[]'', None, None] 0
    = Inr (ex_f_array, [Some ''int[]'', Some ''java.lang.String'', Some ''int''])"
  by (simp add: eval_defs ex_f_stored_def ex_f_array_def)

section \<open>The claims\<close>

subsection \<open>C9: the extra reference slot of an out-parameter return type\<close>

text \<open>
  C9. When \<open>_storeToNonUDT\<close> has stored a descriptor whose return type is an
  out-parameter, \<open>numRefParams\<close> is the number of declared parameters passed as
  references, plus one if the function is not multi-call and plus nothing if it is. The
  counters are 16 bits wide, so the parameter count is taken below 65535.
\<close>

theorem storeToNonUDT_out_parameter_slot:
  assumes "storeToNonUDT ops self sl cl ro mc tm numParams rto rjt oids pjts out = Inr (f, out', r)"
    and "numParams < 65535"
    and "returnType f = Some rt" and "Type_isOutParameter rt"
  shows "unat (numRefParams f) =
           countRef (take (nat numParams) (paramTypes f)) + (if isMultiCall f then 0 else 1)"
proof -
  from storeToNonUDT_result [OF assms(1)] assms(3,4) have "r" by auto
  with storeToNonUDT_counts(2) [OF assms(1,2)] show ?thesis by simp
qed

theorem storeToNonUDT_out_parameter_slot_witness:
  "storeToNonUDT ex_ops allocInstance 1 2 0 0 0 1 2249 None [25] None [None, None]
     = Inr (ex_f_record, [Some ''java.lang.String'', Some ''java.sql.ResultSet''], True)
   \<and> storeToNonUDT ex_ops allocInstance 1 2 0 1 0 1 2249 None [25] None [None, None]
     = Inr (ex_f_record_srf, [Some ''java.lang.String'', Some ''java.sql.ResultSet''], True)
   \<and> Type_isOutParameter ex_ResultSet
   \<and> countRef (take (nat 1) (paramTypes ex_f_record)) = 1
   \<and> \<not> isMultiCall ex_f_record \<and> unat (numRefParams ex_f_record) = 2
   \<and> isMultiCall ex_f_record_srf \<and> unat (numRefParams ex_f_record_srf) = 1"
proof -
  have s: "(1::int) < 65535" by simp
  have o: "Type_isOutParameter ex_ResultSet" by (simp add: ex_defs)
  have r: "returnType ex_f_record = Some ex_ResultSet"
    "returnType ex_f_record_srf = Some ex_ResultSet"
    by (simp_all add: ex_f_record_def ex_f_record_srf_def)
  have c: "countRef (take (nat 1) (paramTypes ex_f_record)) = 1"
    "countRef (take (nat 1) (paramTypes ex_f_record_srf)) = 1"
    by (simp_all add: countRef_def passAsPrimitive_def ex_f_record_def ex_f_record_srf_def
          ex_defs)
  have m: "\<not> isMultiCall ex_f_record" "isMultiCall ex_f_record_srf"
    by (simp_all add: ex_f_record_def ex_f_record_srf_def allocInstance_def)
  from storeToNonUDT_out_parameter_slot [OF ex_store_record s r(1) o] c(1) m(1)
  have a: "unat (numRefParams ex_f_record) = 2" by simp
  from storeToNonUDT_out_parameter_slot [OF ex_store_record_srf s r(2) o] c(2) m(2)
  have b: "unat (numRefParams ex_f_record_srf) = 1" by simp
  from ex_store_record ex_store_record_srf o c(1) m a b show ?thesis by simp
qed

subsection \<open>C1: the sum of the two counters\<close>

text \<open>
  C1 as stated fails: for \<open>f(String)\<close> with an out-parameter return type, not multi-call,
  \<open>_storeToNonUDT\<close> leaves \<open>numRefParams + numPrimParams = 2\<close> for one declared
  parameter.
\<close>

theorem counts_sum_counterexample:
  "storeToNonUDT ex_ops allocInstance 1 2 0 0 0 1 2249 None [25] None [None, None]
     = Inr (ex_f_record, [Some ''java.lang.String'', Some ''java.sql.ResultSet''], True)
   \<and> unat (numRefParams ex_f_record) + unat (numPrimParams ex_f_record) \<noteq> nat 1"
  by (simp add: eval_defs ex_f_record_def)

text \<open>
  C1 as amended. After \<open>_storeToNonUDT\<close> has filled the zeroed instance for fewer than
  65535 parameters, and after any number of later \<open>_reconcileTypes\<close> calls none of which
  puts a primitive array in the place of a primitive scalar,
  \<open>numRefParams + numPrimParams\<close> is the declared parameter count, plus one when the
  return type as stored was an out-parameter and the function is not multi-call.
\<close>

theorem counts_sum_after_store_and_reconcile:
  assumes "storeToNonUDT ops self sl cl ro mc tm numParams rto rjt oids pjts out = Inr (f0, out', r)"
    and "paramTypes self = []" and "numParams < 65535"
    and "reconciled ops f0 f"
  shows "unat (numRefParams f) + unat (numPrimParams f)
           = nat numParams + (if r \<and> \<not> isMultiCall f0 then 1 else 0)"
proof -
  let ?extra = "if r \<and> \<not> isMultiCall f0 then 1 else 0 :: nat"
  from storeToNonUDT_counts_agree [OF assms(1-3)]
  have c0: "counts_agree ?extra f0" and l0: "length (paramTypes f0) = nat numParams" by auto
  from reconciled_counts [OF assms(4) c0] have "counts_agree ?extra f" .
  moreover from reconciled_length [OF assms(4)] l0 have "length (paramTypes f) = nat numParams"
    by simp
  ultimately show ?thesis
    using countRef_countPrim [of "paramTypes f"] by (simp add: counts_agree_def)
qed

theorem counts_sum_witness:
  "storeToNonUDT ex_ops allocInstance 1 2 0 0 0 2 23 None [23, 25] None [None, None, None]
     = Inr (ex_f_stored, [Some ''int'', Some ''java.lang.String'', Some ''int''], False)
   \<and> reconciled ex_ops ex_f_stored ex_f_boxed
   \<and> unat (numRefParams ex_f_boxed) + unat (numPrimParams ex_f_boxed) = 2"
proof -
  have e: "paramTypes allocInstance = []" by (simp add: allocInstance_def)
  have s: "(2::int) < 65535" by simp
  have "\<not> array_for_scalar ex_f_stored ex_f_boxed 0"
    by (simp add: array_for_scalar_def ex_f_boxed_def ex_f_stored_def ex_defs)
  with ex_reconcile_boxed have r: "reconciled ex_ops ex_f_stored ex_f_boxed"
    by (rule reconciled_call [OF reconciled_none])
  from counts_sum_after_store_and_reconcile [OF ex_store_stored e s r] ex_store_stored r
  show ?thesis by simp
qed

subsection \<open>C8: the direction of the adjustment\<close>

text \<open>
  C8 at a failing input. Parameter 0 of \<open>f(int, String)\<close> is reconciled to \<open>int[]\<close>: the
  original is passed as a primitive, the replacement as a reference, so the claim has
  \<open>numRefParams\<close> go from 1 to 2 and \<open>numPrimParams\<close> from 1 to 0. The code tests
  \<open>Type_isPrimitive\<close> of the replacement, which holds of an array of primitives too, and
  goes the other way: \<open>numRefParams\<close> becomes 0 and \<open>numPrimParams\<close> 2, while both
  parameter types now count as references.
\<close>

theorem reconcile_array_for_scalar_counts:
  "reconcileTypes ex_ops ex_f_stored [Some ''int'', Some ''java.lang.String'', Some ''int'']
     [Some ''int[]'', None, None] 0
    = Inr (ex_f_array, [Some ''int[]'', Some ''java.lang.String'', Some ''int''])
   \<and> passAsPrimitive (paramTypes ex_f_stored ! 0)
   \<and> \<not> passAsPrimitive (paramTypes ex_f_array ! 0)
   \<and> unat (numRefParams ex_f_stored) = 1 \<and> unat (numPrimParams ex_f_stored) = 1
   \<and> unat (numRefParams ex_f_array) = 0 \<and> unat (numPrimParams ex_f_array) = 2
   \<and> countRef (paramTypes ex_f_array) = 2 \<and> countPrim (paramTypes ex_f_array) = 0"
  using ex_reconcile_array
  by (simp add: ex_f_array_def ex_f_stored_def passAsPrimitive_def ex_defs allocInstance_def
        countRef_def countPrim_def)

subsection \<open>C7: which coercer wraps the replacement\<close>

text \<open>
  C7. Let the candidate replacement \<open>repl\<close> not be able to replace the original type.
  With index \<open>-2\<close> the explicit type name is element 0 of \<open>explicitTypes\<close> and the
  new return type is \<open>Type_getCoerceOut repl orig\<close>. With index \<open>-1\<close> the name is the
  element at the last index of \<open>resolvedTypes\<close> and the new return type is
  \<open>Type_getCoerceIn repl orig\<close>. With a parameter index the name is the element at that
  index and \<open>Type_getCoerceIn repl orig\<close> becomes the type of that parameter.
\<close>

theorem reconcileTypes_coercer_direction:
  assumes "\<not> Type_canReplaceType ops repl orig"
  shows
    "(returnType self = Some orig \<and>
      JNI_getObjectArrayElement explicitTypes 0 = Inr javaName \<and>
      Type_fromJavaType ops InvalidOid javaName = Inr repl \<longrightarrow>
        reconcileTypes ops self resolvedTypes explicitTypes (-2) =
          (case Type_getCoerceOut ops repl orig of
             Inl e \<Rightarrow> Inl e
           | Inr coercer \<Rightarrow>
               (case JNI_setObjectArrayElement resolvedTypes (int (length resolvedTypes) - 1)
                       javaName of
                  Inl e \<Rightarrow> Inl e
                | Inr res \<Rightarrow> Inr (self\<lparr> returnType := Some coercer \<rparr>, res))))
   \<and> (returnType self = Some orig \<and>
      JNI_getObjectArrayElement explicitTypes (int (length resolvedTypes) - 1) = Inr javaName \<and>
      Type_fromJavaType ops InvalidOid javaName = Inr repl \<longrightarrow>
        reconcileTypes ops self resolvedTypes explicitTypes (-1) =
          (case Type_getCoerceIn ops repl orig of
             Inl e \<Rightarrow> Inl e
           | Inr coercer \<Rightarrow>
               (case JNI_setObjectArrayElement resolvedTypes (int (length resolvedTypes) - 1)
                       javaName of
                  Inl e \<Rightarrow> Inl e
                | Inr res \<Rightarrow> Inr (self\<lparr> returnType := Some coercer \<rparr>, res))))
   \<and> (0 \<le> index \<and> nat index < length (paramTypes self) \<and>
      paramTypes self ! nat index = orig \<and>
      JNI_getObjectArrayElement explicitTypes index = Inr javaName \<and>
      Type_fromJavaType ops (Type_getOid orig) javaName = Inr repl \<longrightarrow>
        reconcileTypes ops self resolvedTypes explicitTypes index =
          (case Type_getCoerceIn ops repl orig of
             Inl e \<Rightarrow> Inl e
           | Inr coercer \<Rightarrow>
               (case JNI_setObjectArrayElement resolvedTypes index javaName of
                  Inl e \<Rightarrow> Inl e
                | Inr res \<Rightarrow>
                    Inr (reconcile_store self False index orig coercer, res)))
        \<and> (\<forall>coercer. paramTypes (reconcile_store self False index orig coercer)
                        = (paramTypes self)[nat index := coercer]))"
proof (intro conjI impI)
  assume "returnType self = Some orig \<and>
      JNI_getObjectArrayElement explicitTypes 0 = Inr javaName \<and>
      Type_fromJavaType ops InvalidOid javaName = Inr repl"
  with assms show "reconcileTypes ops self resolvedTypes explicitTypes (-2) =
          (case Type_getCoerceOut ops repl orig of
             Inl e \<Rightarrow> Inl e
           | Inr coercer \<Rightarrow>
               (case JNI_setObjectArrayElement resolvedTypes (int (length resolvedTypes) - 1)
                       javaName of
                  Inl e \<Rightarrow> Inl e
                | Inr res \<Rightarrow> Inr (self\<lparr> returnType := Some coercer \<rparr>, res)))"
    by (simp add: reconcileTypes_def reconcile_origType_def reconcile_coerce_def
          reconcile_store_def split: sum.splits)
next
  assume "returnType self = Some orig \<and>
      JNI_getObjectArrayElement explicitTypes (int (length resolvedTypes) - 1) = Inr javaName \<and>
      Type_fromJavaType ops InvalidOid javaName = Inr repl"
  with assms show "reconcileTypes ops self resolvedTypes explicitTypes (-1) =
          (case Type_getCoerceIn ops repl orig of
             Inl e \<Rightarrow> Inl e
           | Inr coercer \<Rightarrow>
               (case JNI_setObjectArrayElement resolvedTypes (int (length resolvedTypes) - 1)
                       javaName of
                  Inl e \<Rightarrow> Inl e
                | Inr res \<Rightarrow> Inr (self\<lparr> returnType := Some coercer \<rparr>, res)))"
    by (simp add: reconcileTypes_def reconcile_origType_def reconcile_coerce_def
          reconcile_store_def split: sum.splits)
next
  assume "0 \<le> index \<and> nat index < length (paramTypes self) \<and>
      paramTypes self ! nat index = orig \<and>
      JNI_getObjectArrayElement explicitTypes index = Inr javaName \<and>
      Type_fromJavaType ops (Type_getOid orig) javaName = Inr repl"
  with assms show "reconcileTypes ops self resolvedTypes explicitTypes index =
          (case Type_getCoerceIn ops repl orig of
             Inl e \<Rightarrow> Inl e
           | Inr coercer \<Rightarrow>
               (case JNI_setObjectArrayElement resolvedTypes index javaName of
                  Inl e \<Rightarrow> Inl e
                | Inr res \<Rightarrow>
                    Inr (reconcile_store self False index orig coercer, res)))"
    by (auto simp: reconcileTypes_def reconcile_origType_def reconcile_coerce_def
          split: sum.splits)
next
  show "\<forall>coercer. paramTypes (reconcile_store self False index orig coercer)
                        = (paramTypes self)[nat index := coercer]"
    by (simp add: reconcile_store_def Let_def)
qed

theorem reconcileTypes_coercer_direction_witness:
  "\<not> Type_canReplaceType ex_ops ex_String ex_int
   \<and> reconcileTypes ex_ops ex_f_stored ex_resolved [Some ''java.lang.String''] (-2)
       = Inr (ex_f_stored\<lparr> returnType := Some (Type 25 ''java.lang.String'' False None False False) \<rparr>,
              [Some ''int'', Some ''java.lang.String'', Some ''java.lang.String''])
   \<and> reconcileTypes ex_ops ex_f_stored ex_resolved [None, None, Some ''java.lang.String''] (-1)
       = Inr (ex_f_stored\<lparr> returnType := Some (Type 23 ''java.lang.String'' False None False False) \<rparr>,
              [Some ''int'', Some ''java.lang.String'', Some ''java.lang.String''])
   \<and> reconcileTypes ex_ops ex_f_stored ex_resolved [Some ''java.lang.String'', None, None] 0
       = Inr (ex_f_stored\<lparr> paramTypes := [Type 23 ''java.lang.String'' False None False False, ex_String],
                            numRefParams := 2, numPrimParams := 0 \<rparr>,
              [Some ''java.lang.String'', Some ''java.lang.String'', Some ''int''])"
proof -
  have n: "\<not> Type_canReplaceType ex_ops ex_String ex_int" by (simp add: ex_defs)
  note t = reconcileTypes_coercer_direction [OF n, of ex_f_stored]
  from t [of "[Some ''java.lang.String'']" "Some ''java.lang.String''" ex_resolved 0]
  have a: "reconcileTypes ex_ops ex_f_stored ex_resolved [Some ''java.lang.String''] (-2)
       = Inr (ex_f_stored\<lparr> returnType := Some (Type 25 ''java.lang.String'' False None False False) \<rparr>,
              [Some ''int'', Some ''java.lang.String'', Some ''java.lang.String''])"
    by (simp add: ex_f_stored_def ex_resolved_def JNI_getObjectArrayElement_def
          JNI_setObjectArrayElement_def InvalidOid_def ex_defs)
  from t [of "[None, None, Some ''java.lang.String'']" "Some ''java.lang.String''" ex_resolved 0]
  have b: "reconcileTypes ex_ops ex_f_stored ex_resolved [None, None, Some ''java.lang.String''] (-1)
       = Inr (ex_f_stored\<lparr> returnType := Some (Type 23 ''java.lang.String'' False None False False) \<rparr>,
              [Some ''int'', Some ''java.lang.String'', Some ''java.lang.String''])"
    by (simp add: ex_f_stored_def ex_resolved_def JNI_getObjectArrayElement_def
          JNI_setObjectArrayElement_def InvalidOid_def ex_defs)
  from t [of "[Some ''java.lang.String'', None, None]" "Some ''java.lang.String''" ex_resolved 0]
  have c: "reconcileTypes ex_ops ex_f_stored ex_resolved [Some ''java.lang.String'', None, None] 0
       = Inr (ex_f_stored\<lparr> paramTypes := [Type 23 ''java.lang.String'' False None False False, ex_String],
                            numRefParams := 2, numPrimParams := 0 \<rparr>,
              [Some ''java.lang.String'', Some ''java.lang.String'', Some ''int''])"
    by (simp add: ex_f_stored_def ex_resolved_def JNI_getObjectArrayElement_def
          JNI_setObjectArrayElement_def InvalidOid_def ex_defs reconcile_store_def
          passAsPrimitive_def Let_def allocInstance_def)
  from n a b c show ?thesis by simp
qed

subsection \<open>C2: later calls of a multi-call function\<close>

text \<open>
  C2. For a non-UDT descriptor with \<open>isMultiCall\<close> set and a call that is not the first
  of its series, \<open>Function_invoke\<close> does no marshaling: the process state it hands to
  \<open>Type_invokeSRF\<close>, and with it the header, the primitive slots and the reference slots
  of the parameter area, is the state it was entered with.
\<close>

theorem multicall_later_call_skips_marshaling:
  assumes "\<not> isUDT self" and "isMultiCall self" and "\<not> SRF_IS_FIRSTCALL fcinfo"
  shows "invoke_marshal ops host self (fcinfo\<lparr> isnull := False \<rparr>) st =
           (case returnType self of None \<Rightarrow> Inl Fault | Some rt \<Rightarrow> Inr (rt, st))
       \<and> Function_invoke ops host self fcinfo st =
           (case returnType self of
              None \<Rightarrow> Inl Fault
            | Some rt \<Rightarrow> Type_invokeSRF host rt self (fcinfo\<lparr> isnull := False \<rparr>) st)"
  using assms
  by (simp add: Function_invoke_def invoke_marshal_def SRF_IS_FIRSTCALL_def split: option.splits)

theorem multicall_later_call_skips_marshaling_witness:
  "\<not> isUDT ex_f_srf \<and> isMultiCall ex_f_srf \<and> \<not> SRF_IS_FIRSTCALL ex_fcinfo_next
   \<and> invoke_marshal ex_ops ex_host ex_f_srf (ex_fcinfo_next\<lparr> isnull := False \<rparr>) ex_state_in_flight
       = Inr (ex_String, ex_state_in_flight)
   \<and> Function_invoke ex_ops ex_host ex_f_srf ex_fcinfo_next ex_state_in_flight
       = Inr (0, ex_fcinfo_next\<lparr> isnull := True \<rparr>, ex_state_in_flight)"
proof -
  have h: "\<not> isUDT ex_f_srf" "isMultiCall ex_f_srf" "\<not> SRF_IS_FIRSTCALL ex_fcinfo_next"
    by (simp_all add: ex_f_srf_def allocInstance_def SRF_IS_FIRSTCALL_def ex_fcinfo_next_def
          NULL_def)
  from multicall_later_call_skips_marshaling [OF h, of ex_ops ex_host ex_state_in_flight] h
  show ?thesis
    by (simp add: ex_f_srf_def ex_host_def ex_invoke_def ex_state_in_flight_def ex_state5_def
          ex_state_def allocInstance_def)
qed

subsection \<open>C3: null arguments\<close>

lemma marshal_arg_indices:
  assumes "marshal_arg ops host self fcinfo (refIdx, primIdx, st) i = Inr (refIdx', primIdx', st')"
  shows "refIdx' = refIdx + (if passAsPrimitive (paramTypes self ! i) then 0 else 1)
       \<and> primIdx' = primIdx + (if passAsPrimitive (paramTypes self ! i) then 1 else 0)
       \<and> i < length (paramTypes self)"
  using assms
  by (auto simp: marshal_arg_def Let_def split: if_splits sum.splits prod.splits)

lemma marshal_loop_indices:
  "for_loop (marshal_arg ops host self fcinfo) [0 ..< i] (0, 0, st0) = Inr (refIdx, primIdx, st)
     \<Longrightarrow> refIdx = countRef (take i (paramTypes self))
       \<and> primIdx = countPrim (take i (paramTypes self)) \<and> i \<le> length (paramTypes self)"
proof (induction i arbitrary: refIdx primIdx st)
  case 0
  then show ?case by (simp add: countRef_def countPrim_def)
next
  case (Suc i)
  from Suc.prems obtain r1 p1 s1 where
    l: "for_loop (marshal_arg ops host self fcinfo) [0 ..< i] (0, 0, st0) = Inr (r1, p1, s1)" and
    b: "marshal_arg ops host self fcinfo (r1, p1, s1) i = Inr (refIdx, primIdx, st)"
    by (auto simp: for_loop_snoc split: sum.splits)
  from Suc.IH [OF l] have ih: "r1 = countRef (take i (paramTypes self))"
    "p1 = countPrim (take i (paramTypes self))" by auto
  from marshal_arg_indices [OF b] have
    m: "refIdx = r1 + (if passAsPrimitive (paramTypes self ! i) then 0 else 1)"
       "primIdx = p1 + (if passAsPrimitive (paramTypes self ! i) then 1 else 0)"
       "i < length (paramTypes self)" by auto
  from m(3) have t: "take (Suc i) (paramTypes self) = take i (paramTypes self) @ [paramTypes self ! i]"
    by (simp add: take_Suc_conv_app_nth)
  from ih m show ?case by (auto simp: t countRef_def countPrim_def)
qed

lemma upt_split: "i < n \<Longrightarrow> [0 ..< n] = [0 ..< i] @ i # [Suc i ..< n]"
  by (metis le0 le_add_diff_inverse less_imp_le_nat upt_add_eq_append upt_conv_Cons)

lemma invoke_marshal_Inr:
  assumes "\<not> isMultiCall self" and "0 < PG_NARGS fc"
    and "invoke_marshal ops host self fc st = Inr (invokerType, st')"
  shows "\<exists>st1 rn pn.
           beginParameters
             (COUNTCHECK (ucast (numRefParams self)) (ucast (numPrimParams self))) st = Inr st1
         \<and> for_loop (marshal_arg ops host self fc) [0 ..< PG_NARGS fc] (0, 0, st1)
             = Inr (rn, pn, st')"
  using assms unfolding invoke_marshal_def Let_def
  by (simp split: sum.splits option.splits prod.splits if_splits)

lemma marshal_arg_null:
  assumes "PG_ARGISNULL fc i" and "i < length (paramTypes self)"
  shows "marshal_arg ops host self fc (refIdx, primIdx, sa) i =
           (if passAsPrimitive (paramTypes self ! i)
            then (if primIdx < length (s_primitiveParameters sa)
                  then Inr (refIdx, primIdx + 1,
                            sa\<lparr> s_primitiveParameters :=
                                   (s_primitiveParameters sa)[primIdx := 0] \<rparr>)
                  else Inl Fault)
            else Inr (refIdx + 1, primIdx, sa))"
  using assms by (simp add: marshal_arg_def setPrimitive_def Let_def)

text \<open>
  C3. Let \<open>Function_invoke\<close> marshal a call of a descriptor that is neither UDT nor
  multi-call, and let the host mark argument \<open>i\<close> null. The state that
  \<open>Function_invoke\<close> hands to \<open>Type_invoke\<close> is then reached as follows: the header is
  written; the iterations before \<open>i\<close> run, after which the reference index is the
  number of reference parameters before \<open>i\<close> and the primitive index the number of
  primitive ones; iteration \<open>i\<close>, if parameter \<open>i\<close> is primitive, writes zero into the
  primitive slot at the primitive index, which lies within the array, changes nothing
  else and advances that index by one, and if parameter \<open>i\<close> is a reference, advances
  the reference index by one and changes nothing; the remaining iterations run from
  there.
\<close>

theorem null_argument_marshaling:
  assumes "\<not> isUDT self" and "\<not> isMultiCall self"
    and "fc = fcinfo\<lparr> isnull := False \<rparr>"
    and "invoke_marshal ops host self fc st = Inr (invokerType, st')"
    and "i < PG_NARGS fcinfo" and "PG_ARGISNULL fcinfo i"
  shows "\<exists>st1 refIdx primIdx sa rn pn.
           beginParameters
             (COUNTCHECK (ucast (numRefParams self)) (ucast (numPrimParams self))) st = Inr st1
         \<and> for_loop (marshal_arg ops host self fc) [0 ..< i] (0, 0, st1)
             = Inr (refIdx, primIdx, sa)
         \<and> refIdx = countRef (take i (paramTypes self))
         \<and> primIdx = countPrim (take i (paramTypes self))
         \<and> (if passAsPrimitive (paramTypes self ! i)
             then primIdx < length (s_primitiveParameters sa) \<and>
                  for_loop (marshal_arg ops host self fc) [Suc i ..< PG_NARGS fcinfo]
                    (refIdx, primIdx + 1,
                     sa\<lparr> s_primitiveParameters := (s_primitiveParameters sa)[primIdx := 0] \<rparr>)
                    = Inr (rn, pn, st')
             else for_loop (marshal_arg ops host self fc) [Suc i ..< PG_NARGS fcinfo]
                    (refIdx + 1, primIdx, sa) = Inr (rn, pn, st'))
         \<and> Function_invoke ops host self fcinfo st = Type_invoke host invokerType self fc st'"
proof -
  let ?body = "marshal_arg ops host self fc"
  have n: "PG_NARGS fc = PG_NARGS fcinfo" and z: "PG_ARGISNULL fc i"
    using assms(3,6) by (simp_all add: PG_NARGS_def PG_ARGISNULL_def)
  from assms(5) n have "0 < PG_NARGS fc" by simp
  from invoke_marshal_Inr [OF assms(2) this assms(4)] n obtain st1 rn pn where
    b: "beginParameters
          (COUNTCHECK (ucast (numRefParams self)) (ucast (numPrimParams self))) st = Inr st1" and
    l: "for_loop ?body [0 ..< PG_NARGS fcinfo] (0, 0, st1) = Inr (rn, pn, st')"
    by auto
  from l upt_split [OF assms(5)] have
    "for_loop ?body ([0 ..< i] @ i # [Suc i ..< PG_NARGS fcinfo]) (0, 0, st1) = Inr (rn, pn, st')"
    by simp
  then obtain refIdx primIdx sa s2 where
    pre: "for_loop ?body [0 ..< i] (0, 0, st1) = Inr (refIdx, primIdx, sa)" and
    step: "?body (refIdx, primIdx, sa) i = Inr s2" and
    rest: "for_loop ?body [Suc i ..< PG_NARGS fcinfo] s2 = Inr (rn, pn, st')"
    by (auto simp: for_loop_append split: sum.splits)
  from marshal_loop_indices [OF pre] have
    idx: "refIdx = countRef (take i (paramTypes self))"
         "primIdx = countPrim (take i (paramTypes self))" by auto
  obtain r2 p2 sb where s2: "s2 = (r2, p2, sb)" by (cases s2)
  from marshal_arg_indices [OF step [unfolded s2]] have il: "i < length (paramTypes self)"
    by simp
  note ma = marshal_arg_null [OF z il, of ops host refIdx primIdx sa]
  have c: "if passAsPrimitive (paramTypes self ! i)
             then primIdx < length (s_primitiveParameters sa) \<and>
                  for_loop ?body [Suc i ..< PG_NARGS fcinfo]
                    (refIdx, primIdx + 1,
                     sa\<lparr> s_primitiveParameters := (s_primitiveParameters sa)[primIdx := 0] \<rparr>)
                    = Inr (rn, pn, st')
             else for_loop ?body [Suc i ..< PG_NARGS fcinfo]
                    (refIdx + 1, primIdx, sa) = Inr (rn, pn, st')"
  proof (cases "passAsPrimitive (paramTypes self ! i)")
    case True
    with ma step have w: "primIdx < length (s_primitiveParameters sa)"
      by (auto split: if_splits)
    with ma step True have "s2 = (refIdx, primIdx + 1,
        sa\<lparr> s_primitiveParameters := (s_primitiveParameters sa)[primIdx := 0] \<rparr>)"
      by simp
    with rest w True show ?thesis by simp
  next
    case False
    with ma step have "s2 = (refIdx + 1, primIdx, sa)" by simp
    with rest False show ?thesis by simp
  qed
  have f: "Function_invoke ops host self fcinfo st = Type_invoke host invokerType self fc st'"
    using assms(1-4) by (simp add: Function_invoke_def)
  from b pre idx c f show ?thesis by blast
qed

lemma ex_invoke_marshal:
  "invoke_marshal ex_ops ex_host ex_f3 (ex_fcinfo3\<lparr> isnull := False \<rparr>) ex_state_stale
     = Inr (ex_int, ex_state_marshalled)"
  by (simp add: invoke_marshal_def beginParameters_def pushFrameIfInFlight_def COUNTCHECK_def
        marshal_arg_def setPrimitive_def PG_NARGS_def PG_ARGISNULL_def PG_GETARG_DATUM_def
        SRF_IS_FIRSTCALL_def ex_f3_def ex_fcinfo3_def ex_state_stale_def ex_state_marshalled_def
        ex_state_def ex_host_def ex_defs passAsPrimitive_def allocInstance_def Let_def upt_rec)

theorem null_argument_marshaling_witness:
  "\<not> isUDT ex_f3 \<and> \<not> isMultiCall ex_f3
   \<and> invoke_marshal ex_ops ex_host ex_f3 (ex_fcinfo3\<lparr> isnull := False \<rparr>) ex_state_stale
       = Inr (ex_int, ex_state_marshalled)
   \<and> PG_NARGS ex_fcinfo3 = 3 \<and> PG_ARGISNULL ex_fcinfo3 1 \<and> PG_ARGISNULL ex_fcinfo3 2
   \<and> Function_invoke ex_ops ex_host ex_f3 ex_fcinfo3 ex_state_stale
       = Inr (0, ex_fcinfo3\<lparr> isnull := True \<rparr>, ex_state_marshalled)
   \<and> s_primitiveParameters ex_state_stale ! 1 = 77
   \<and> s_primitiveParameters ex_state_marshalled ! 1 = 0
   \<and> s_referenceParameters ex_state_marshalled = s_referenceParameters ex_state_stale"
proof -
  have u: "\<not> isUDT ex_f3" "\<not> isMultiCall ex_f3"
    by (simp_all add: ex_f3_def allocInstance_def)
  have n: "PG_NARGS ex_fcinfo3 = 3" "PG_ARGISNULL ex_fcinfo3 1" "PG_ARGISNULL ex_fcinfo3 2"
    "2 < PG_NARGS ex_fcinfo3"
    by (simp_all add: PG_NARGS_def PG_ARGISNULL_def ex_fcinfo3_def)
  from null_argument_marshaling [OF u refl ex_invoke_marshal n(4) n(3)]
  have "Function_invoke ex_ops ex_host ex_f3 ex_fcinfo3 ex_state_stale
          = Type_invoke ex_host ex_int ex_f3 (ex_fcinfo3\<lparr> isnull := False \<rparr>)
              ex_state_marshalled"
    by blast
  then have f: "Function_invoke ex_ops ex_host ex_f3 ex_fcinfo3 ex_state_stale
       = Inr (0, ex_fcinfo3\<lparr> isnull := True \<rparr>, ex_state_marshalled)"
    by (simp add: ex_host_def ex_invoke_def ex_f3_def ex_state_marshalled_def
          ex_state_stale_def ex_state_def)
  have v: "s_primitiveParameters ex_state_stale ! 1 = 77"
    "s_primitiveParameters ex_state_marshalled ! 1 = 0"
    "s_referenceParameters ex_state_marshalled = s_referenceParameters ex_state_stale"
    by (simp_all add: ex_state_stale_def ex_state_marshalled_def)
  from u ex_invoke_marshal n(1-3) f v show ?thesis by (simp only: simp_thms)
qed

subsection \<open>C10: read-only by default\<close>

text \<open>
  C10. When the innermost invocation frame has no current function
  (\<open>currentInvocation->function\<close> is 0), \<open>Function_isCurrentReadOnly\<close> returns true.
\<close>

theorem isCurrentReadOnly_default:
  assumes "currentInvocation st = ic # previous" and "ic_function ic = 0"
  shows "Function_isCurrentReadOnly st = Inr True"
  using assms by (simp add: Function_isCurrentReadOnly_def)

theorem isCurrentReadOnly_default_witness:
  "currentInvocation ex_state = ex_frame # [] \<and> ic_function ex_frame = 0
   \<and> Function_isCurrentReadOnly ex_state = Inr True"
proof -
  have a: "currentInvocation ex_state = ex_frame # []" by (simp add: ex_state_def)
  have b: "ic_function ex_frame = 0" by (simp add: ex_frame_def NULL_def)
  from isCurrentReadOnly_default [OF a b] a b show ?thesis by simp
qed

subsection \<open>C6: the null flag and the result of a trigger call\<close>

lemma invokeTrigger_finish_isnull:
  "invokeTrigger_finish host jtd fcinfo1 st = Inr (ret, fcinfo', st') \<Longrightarrow> \<not> isnull fcinfo'"
  by (auto simp: invokeTrigger_finish_def Let_def split: if_splits sum.splits prod.splits)

lemma invokeTrigger_finish_failure:
  "exceptionPending st \<Longrightarrow>
     invokeTrigger_finish host jtd fcinfo1 st = Inr (0, fcinfo1\<lparr> isnull := False \<rparr>, st)"
  by (simp add: invokeTrigger_finish_def)

lemma invokeTrigger_without_trigger_data:
  "pljava_TriggerData_create host (fc_context fcinfo) = NULL \<Longrightarrow>
     Function_invokeTrigger host self fcinfo st = Inr (0, fcinfo, st)"
  by (simp add: Function_invokeTrigger_def)

text \<open>
  C6. A trigger invocation carries trigger data, from which the guest-visible trigger
  data object is made, and the host clears the null flag before it calls; either of the
  two is assumed. When \<open>Function_invokeTrigger\<close> then returns, the null flag is false
  whatever the guest code did with it; and if the guest runtime has a failure pending
  when the generic invoke returns, the result is the zero datum.
\<close>

theorem invokeTrigger_isnull_and_failure:
  assumes "Function_invokeTrigger host self fcinfo st = Inr (ret, fcinfo', st')"
    and "pljava_TriggerData_create host (fc_context fcinfo) \<noteq> NULL \<or> \<not> isnull fcinfo"
  shows "\<not> isnull fcinfo'
       \<and> (\<forall>st1 rt d fcinfo1 st2.
            invokeTrigger_marshal (fc_context fcinfo)
              (pljava_TriggerData_create host (fc_context fcinfo)) st = Inr st1 \<and>
            returnType self = Some rt \<and>
            Type_invoke host rt self fcinfo st1 = Inr (d, fcinfo1, st2) \<and>
            exceptionPending st2 \<longrightarrow> ret = 0)"
proof -
  let ?jtd = "pljava_TriggerData_create host (fc_context fcinfo)"
  have a: "\<not> isnull fcinfo'"
  proof (cases "?jtd = NULL")
    case True
    from invokeTrigger_without_trigger_data [OF True, of self st] assms(1)
    have "fcinfo' = fcinfo" by simp
    with True assms(2) show ?thesis by simp
  next
    case False
    with assms(1) show ?thesis
      by (auto simp: Function_invokeTrigger_def Let_def split: sum.splits option.splits
            dest: invokeTrigger_finish_isnull)
  qed
  have c: "ret = 0"
    if "invokeTrigger_marshal (fc_context fcinfo) ?jtd st = Inr st1 \<and>
        returnType self = Some rt \<and> Type_invoke host rt self fcinfo st1 = Inr (d, fcinfo1, st2) \<and>
        exceptionPending st2" for st1 rt d fcinfo1 st2
  proof (cases "?jtd = NULL")
    case True
    from invokeTrigger_without_trigger_data [OF True, of self st] assms(1)
    show ?thesis by simp
  next
    case False
    with assms(1) that show ?thesis
      by (simp add: Function_invokeTrigger_def Let_def invokeTrigger_finish_failure)
  qed
  from a c show ?thesis by blast
qed

lemma ex_trigger_call:
  "Function_invokeTrigger ex_host ex_f_trigger ex_fcinfo_trigger ex_state
     = Inr (9, ex_fcinfo_trigger, ex_state_trigger\<lparr> currentInvocation := [ex_frame] \<rparr>)"
  by (simp add: Function_invokeTrigger_def ex_host_def ex_fcinfo_trigger_def
        NULL_def ex_f_trigger_def ex_invoke_def invokeTrigger_finish_def setTriggerData_def
        ex_state_trigger_def ex_state_def allocInstance_def ex_frame_def
        invokeTrigger_marshal_def beginParameters_def pushFrameIfInFlight_def
        setReference_def JNI_setObjectArrayElement_def COUNTCHECK_def)

lemma ex_trigger_failing:
  "Function_invokeTrigger ex_host ex_f_failing ex_fcinfo_trigger ex_state
     = Inr (0, ex_fcinfo_trigger, ex_state_trigger\<lparr> exceptionPending := True \<rparr>)"
  by (simp add: Function_invokeTrigger_def ex_host_def ex_fcinfo_trigger_def
        NULL_def ex_f_trigger_def ex_f_failing_def ex_invoke_def invokeTrigger_finish_def
        ex_state_trigger_def ex_state_def allocInstance_def setTriggerData_def ex_frame_def
        invokeTrigger_marshal_def beginParameters_def pushFrameIfInFlight_def
        setReference_def JNI_setObjectArrayElement_def COUNTCHECK_def)

theorem invokeTrigger_isnull_and_failure_witness:
  "pljava_TriggerData_create ex_host (fc_context ex_fcinfo_trigger) \<noteq> NULL
   \<and> \<not> isnull ex_fcinfo_trigger
   \<and> invokeTrigger_marshal 9 9 ex_state = Inr ex_state_trigger
   \<and> Type_invoke ex_host ex_String ex_f_trigger ex_fcinfo_trigger ex_state_trigger
       = Inr (0, ex_fcinfo_trigger\<lparr> isnull := True \<rparr>, ex_state_trigger)
   \<and> Function_invokeTrigger ex_host ex_f_trigger ex_fcinfo_trigger ex_state
       = Inr (9, ex_fcinfo_trigger, ex_state_trigger\<lparr> currentInvocation := [ex_frame] \<rparr>)
   \<and> Type_invoke ex_host ex_String ex_f_failing ex_fcinfo_trigger ex_state_trigger
       = Inr (0, ex_fcinfo_trigger\<lparr> isnull := True \<rparr>,
              ex_state_trigger\<lparr> exceptionPending := True \<rparr>)
   \<and> Function_invokeTrigger ex_host ex_f_failing ex_fcinfo_trigger ex_state
       = Inr (0, ex_fcinfo_trigger, ex_state_trigger\<lparr> exceptionPending := True \<rparr>)"
proof -
  have j: "pljava_TriggerData_create ex_host (fc_context ex_fcinfo_trigger) \<noteq> NULL"
    by (simp add: ex_host_def ex_fcinfo_trigger_def NULL_def)
  then have h: "pljava_TriggerData_create ex_host (fc_context ex_fcinfo_trigger) \<noteq> NULL
      \<or> \<not> isnull ex_fcinfo_trigger" by simp
  have m: "invokeTrigger_marshal 9 9 ex_state = Inr ex_state_trigger"
    by (simp add: invokeTrigger_marshal_def beginParameters_def pushFrameIfInFlight_def
          setReference_def setTriggerData_def JNI_setObjectArrayElement_def COUNTCHECK_def
          ex_state_def ex_state_trigger_def)
  have i: "Type_invoke ex_host ex_String ex_f_trigger ex_fcinfo_trigger ex_state_trigger
       = Inr (0, ex_fcinfo_trigger\<lparr> isnull := True \<rparr>, ex_state_trigger)"
    "Type_invoke ex_host ex_String ex_f_failing ex_fcinfo_trigger ex_state_trigger
       = Inr (0, ex_fcinfo_trigger\<lparr> isnull := True \<rparr>,
              ex_state_trigger\<lparr> exceptionPending := True \<rparr>)"
    by (simp_all add: ex_host_def ex_invoke_def ex_f_trigger_def ex_f_failing_def
          ex_state_trigger_def ex_state_def allocInstance_def)
  from invokeTrigger_isnull_and_failure [OF ex_trigger_call h]
  have n: "\<not> isnull ex_fcinfo_trigger" by simp
  from j n m i ex_trigger_call ex_trigger_failing show ?thesis by (simp only: simp_thms)
qed

subsection \<open>C4: the registry and the validator\<close>

lemma Function_create_result:
  "Function_create host funcOid ft fv cb st = Inr (func, st') \<Longrightarrow>
     func = NULL \<and> fv \<or> func = Suc (brk st)"
  by (auto simp: Function_create_def Let_def split: sum.splits option.splits if_splits prod.splits)

lemma HashMap_get_put:
  "v \<noteq> NULL \<Longrightarrow> HashMap_getByOid (HashMap_putByOid m k v) k = v"
  by (simp add: HashMap_getByOid_def HashMap_putByOid_def update_conv')

lemma setCurrentFunction_funcMap:
  "setCurrentFunction func st = Inr st' \<Longrightarrow> s_funcMap st' = s_funcMap st"
  by (auto simp: setCurrentFunction_def split: list.splits)

lemma setCurrentFunction_idem:
  "setCurrentFunction func st = Inr st' \<Longrightarrow> setCurrentFunction func st' = Inr st'"
  by (auto simp: setCurrentFunction_def split: list.splits)

lemma getFunction_lookup:
  assumes "Function_getFunction host funcOid ft False cb st = Inr (func, st1)"
  shows "func \<noteq> NULL \<and> HashMap_getByOid (s_funcMap st1) funcOid = func
       \<and> setCurrentFunction func st1 = Inr st1"
proof (cases "HashMap_getByOid (s_funcMap st) funcOid = NULL")
  case True
  with assms obtain stc where
    c: "Function_create host funcOid ft False cb st = Inr (func, stc)" and
    n: "func \<noteq> NULL" and
    s: "setCurrentFunction func (stc\<lparr> s_funcMap := HashMap_putByOid (s_funcMap stc) funcOid func \<rparr>)
          = Inr st1"
    using Function_create_result [of host funcOid ft False cb st]
    by (auto simp: Function_getFunction_def Let_def NULL_def split: sum.splits if_splits)
  from setCurrentFunction_funcMap [OF s] have "s_funcMap st1 = HashMap_putByOid (s_funcMap stc) funcOid func"
    by simp
  with n HashMap_get_put setCurrentFunction_idem [OF s] show ?thesis by simp
next
  case False
  with assms have f: "func = HashMap_getByOid (s_funcMap st) funcOid"
    and s: "setCurrentFunction func st = Inr st1"
    by (auto simp: Function_getFunction_def Let_def split: sum.splits if_splits)
  from setCurrentFunction_funcMap [OF s] f False setCurrentFunction_idem [OF s]
  show ?thesis by simp
qed

text \<open>
  C4. A call of \<open>Function_getFunction\<close> that is not for the validator and returns,
  returns a descriptor that is not null, and a second such call for the same procedure
  right after it returns the same address and leaves the state as it is: it is served
  from the registry. A call for the validator returns null or the address of the
  instance it has just allocated, never an address found in the registry, and the
  registry after it is the one that construction left, with the new descriptor put under
  the procedure's key only if that descriptor is not null.
\<close>

theorem getFunction_registry:
  "(Function_getFunction host funcOid forTrigger False checkBody st = Inr (func, st1) \<longrightarrow>
      func \<noteq> NULL \<and>
      Function_getFunction host funcOid forTrigger' False checkBody' st1 = Inr (func, st1))
   \<and> (Function_getFunction host funcOid forTrigger True checkBody st = Inr (func, st1) \<longrightarrow>
      (func = NULL \<or> func = Suc (brk st)) \<and>
      (\<exists>stc. Function_create host funcOid forTrigger True checkBody st = Inr (func, stc) \<and>
             s_funcMap st1 = (if func \<noteq> NULL
                              then HashMap_putByOid (s_funcMap stc) funcOid func
                              else s_funcMap stc)))"
proof (intro conjI impI)
  assume a: "Function_getFunction host funcOid forTrigger False checkBody st = Inr (func, st1)"
  from getFunction_lookup [OF a] show "func \<noteq> NULL" by simp
  from getFunction_lookup [OF a]
  show "Function_getFunction host funcOid forTrigger' False checkBody' st1 = Inr (func, st1)"
    by (simp add: Function_getFunction_def Let_def)
next
  assume a: "Function_getFunction host funcOid forTrigger True checkBody st = Inr (func, st1)"
  then obtain stc where
    c: "Function_create host funcOid forTrigger True checkBody st = Inr (func, stc)" and
    s: "setCurrentFunction func (if func \<noteq> NULL
           then stc\<lparr> s_funcMap := HashMap_putByOid (s_funcMap stc) funcOid func \<rparr> else stc) = Inr st1"
    by (auto simp: Function_getFunction_def Let_def split: sum.splits if_splits)
  from Function_create_result [OF c] show "func = NULL \<or> func = Suc (brk st)" by auto
  from setCurrentFunction_funcMap [OF s] c
  show "\<exists>stc. Function_create host funcOid forTrigger True checkBody st = Inr (func, stc) \<and>
             s_funcMap st1 = (if func \<noteq> NULL
                              then HashMap_putByOid (s_funcMap stc) funcOid func
                              else s_funcMap stc)"
    by (auto split: if_splits)
qed

lemmas ex_create_defs = Function_getFunction_def Function_create_def HashMap_getByOid_def
  HashMap_putByOid_def setCurrentFunction_def ex_host_def ex_create_guest_def NULL_def
  ex_state_def ex_frame_def Let_def

lemma ex_get_first:
  "Function_getFunction ex_host 42 False False False ex_state = Inr (1, ex_state_cached)"
  by (simp add: ex_create_defs eval_defs ex_state_cached_def ex_f_String_def)

lemma ex_get_validator:
  "Function_getFunction ex_host 42 False True False ex_state_cached
     = Inr (NULL, ex_state_validated)"
  by (simp add: ex_create_defs ex_state_cached_def ex_state_validated_def allocInstance_def
        numeral_2_eq_2)

lemma ex_get_validator_checkBody:
  "Function_getFunction ex_host 42 False True True ex_state_cached
     = Inr (2, ex_state_checked)"
  by (simp add: ex_create_defs eval_defs ex_state_cached_def ex_state_checked_def ex_f_String_def
        numeral_2_eq_2)

theorem getFunction_registry_witness:
  "Function_getFunction ex_host 42 False False False ex_state = Inr (1, ex_state_cached)
   \<and> Function_getFunction ex_host 42 True False True ex_state_cached = Inr (1, ex_state_cached)
   \<and> Function_getFunction ex_host 42 False True False ex_state_cached
       = Inr (NULL, ex_state_validated)
   \<and> s_funcMap ex_state_validated = s_funcMap ex_state_cached
   \<and> Function_getFunction ex_host 42 False True True ex_state_cached
       = Inr (2, ex_state_checked)
   \<and> 2 = Suc (brk ex_state_cached)
   \<and> s_funcMap ex_state_checked = HashMap_putByOid (s_funcMap ex_state_cached) 42 2"
proof -
  from getFunction_registry [where host = ex_host and funcOid = 42 and forTrigger = False
      and checkBody = False and st = ex_state and func = 1 and ?st1.0 = ex_state_cached
      and forTrigger' = True and checkBody' = True]
    ex_get_first
  have a: "Function_getFunction ex_host 42 True False True ex_state_cached
             = Inr (1, ex_state_cached)"
    by simp
  from getFunction_registry [where host = ex_host and funcOid = 42 and forTrigger = False
      and checkBody = True and st = ex_state_cached and func = 2 and ?st1.0 = ex_state_checked]
    ex_get_validator_checkBody
  have b: "2 = Suc (brk ex_state_cached)" by (simp add: NULL_def)
  have c: "s_funcMap ex_state_validated = s_funcMap ex_state_cached"
    "s_funcMap ex_state_checked = HashMap_putByOid (s_funcMap ex_state_cached) 42 2"
    by (simp_all add: ex_state_validated_def ex_state_checked_def ex_state_cached_def
          HashMap_putByOid_def)
  from a b c ex_get_first ex_get_validator ex_get_validator_checkBody show ?thesis
    by (simp only: simp_thms)
qed

subsection \<open>C5: descriptors in use survive invalidation\<close>

lemma inUse_funcMap [simp]: "Function_inUse (s\<lparr> s_funcMap := m \<rparr>) p = Function_inUse s p"
  by (simp add: Function_inUse_def)

lemma inUse_heap [simp]: "Function_inUse (s\<lparr> heap := h \<rparr>) p = Function_inUse s p"
  by (simp add: Function_inUse_def)

lemma clear_entries_spec:
  assumes "distinct (map fst es)"
    and "distinct (filter (\<lambda>p. p \<noteq> NULL) (map snd es))"
    and "\<forall>p \<in> snd ` set es. p \<noteq> NULL \<longrightarrow> p \<in> dom (heap s)"
  shows "\<exists>s'. clear_entries es s = Inr s'
           \<and> s' = s\<lparr> s_funcMap := s_funcMap s', heap := heap s' \<rparr>
           \<and> map_of (s_funcMap s') =
               (\<lambda>k. case map_of es k of
                       Some p \<Rightarrow> if p \<noteq> NULL \<and> Function_inUse s p then Some p
                                 else map_of (s_funcMap s) k
                     | None \<Rightarrow> map_of (s_funcMap s) k)
           \<and> heap s' = (\<lambda>a. if a \<in> freed es s then None else heap s a)"
  using assms
proof (induction es arbitrary: s)
  case Nil
  show ?case by (simp add: freed_def)
next
  case (Cons e es)
  obtain k p where e: "e = (k, p)" by (cases e)
  from Cons.prems e have dk: "distinct (map fst es)" and kn: "k \<notin> fst ` set es" by auto
  then have mk: "map_of es k = None" by (simp add: map_of_eq_None_iff)
  from Cons.prems e have dv: "distinct (filter (\<lambda>p. p \<noteq> NULL) (map snd es))"
    by (auto split: if_splits)
  show ?case
  proof (cases "p = NULL")
    case True
    from Cons.prems e have al: "\<forall>p \<in> snd ` set es. p \<noteq> NULL \<longrightarrow> p \<in> dom (heap s)" by auto
    from Cons.IH [OF dk dv al] obtain s' where
      r: "clear_entries es s = Inr s'" "s' = s\<lparr> s_funcMap := s_funcMap s', heap := heap s' \<rparr>"
         "map_of (s_funcMap s') =
               (\<lambda>k. case map_of es k of
                       Some p \<Rightarrow> if p \<noteq> NULL \<and> Function_inUse s p then Some p
                                 else map_of (s_funcMap s) k
                     | None \<Rightarrow> map_of (s_funcMap s) k)"
         "heap s' = (\<lambda>a. if a \<in> freed es s then None else heap s a)" by blast
    have f: "freed (e # es) s = freed es s" using True e by (auto simp: freed_def)
    have m: "map_of (s_funcMap s') =
               (\<lambda>k'. case map_of (e # es) k' of
                       Some p \<Rightarrow> if p \<noteq> NULL \<and> Function_inUse s p then Some p
                                 else map_of (s_funcMap s) k'
                     | None \<Rightarrow> map_of (s_funcMap s) k')"
      using r(3) True e mk by (auto simp: fun_eq_iff)
    from r(1) True e have "clear_entries (e # es) s = Inr s'" by simp
    with r(2) m r(4) f show ?thesis by auto
  next
    case False
    note pn = False
    show ?thesis
    proof (cases "Function_inUse s p")
      case True
      let ?s1 = "s\<lparr> s_funcMap := HashMap_putByOid (s_funcMap s) k p \<rparr>"
      from Cons.prems e have al: "\<forall>p \<in> snd ` set es. p \<noteq> NULL \<longrightarrow> p \<in> dom (heap ?s1)" by auto
      from Cons.IH [OF dk dv al] obtain s' where
        r: "clear_entries es ?s1 = Inr s'" "s' = ?s1\<lparr> s_funcMap := s_funcMap s', heap := heap s' \<rparr>"
           "map_of (s_funcMap s') =
               (\<lambda>k. case map_of es k of
                       Some p \<Rightarrow> if p \<noteq> NULL \<and> Function_inUse ?s1 p then Some p
                                 else map_of (s_funcMap ?s1) k
                     | None \<Rightarrow> map_of (s_funcMap ?s1) k)"
           "heap s' = (\<lambda>a. if a \<in> freed es ?s1 then None else heap ?s1 a)" by blast
      have f: "freed (e # es) s = freed es ?s1" using True e by (auto simp: freed_def)
      have m: "map_of (s_funcMap s') =
               (\<lambda>k'. case map_of (e # es) k' of
                       Some p \<Rightarrow> if p \<noteq> NULL \<and> Function_inUse s p then Some p
                                 else map_of (s_funcMap s) k'
                     | None \<Rightarrow> map_of (s_funcMap s) k')"
        using r(3) True pn e mk
        by (auto simp: fun_eq_iff HashMap_putByOid_def update_conv' split: option.splits)
      from r(1) True pn e have "clear_entries (e # es) s = Inr s'" by simp
      moreover from r(2) have "s' = s\<lparr> s_funcMap := s_funcMap s', heap := heap s' \<rparr>" by simp
      ultimately show ?thesis using m r(4) f by auto
    next
      case False
      let ?s1 = "s\<lparr> heap := (heap s)(p := None) \<rparr>"
      from Cons.prems e pn have pd: "p \<in> dom (heap s)" by auto
      from Cons.prems(2) e pn have pne: "p \<notin> snd ` set es" by auto
      with Cons.prems e have al: "\<forall>q \<in> snd ` set es. q \<noteq> NULL \<longrightarrow> q \<in> dom (heap ?s1)"
        by auto
      from Cons.IH [OF dk dv al] obtain s' where
        r: "clear_entries es ?s1 = Inr s'" "s' = ?s1\<lparr> s_funcMap := s_funcMap s', heap := heap s' \<rparr>"
           "map_of (s_funcMap s') =
               (\<lambda>k. case map_of es k of
                       Some p \<Rightarrow> if p \<noteq> NULL \<and> Function_inUse ?s1 p then Some p
                                 else map_of (s_funcMap ?s1) k
                     | None \<Rightarrow> map_of (s_funcMap ?s1) k)"
           "heap s' = (\<lambda>a. if a \<in> freed es ?s1 then None else heap ?s1 a)" by blast
      have f: "freed (e # es) s = insert p (freed es ?s1)"
        using False pn e by (auto simp: freed_def)
      have m: "map_of (s_funcMap s') =
               (\<lambda>k'. case map_of (e # es) k' of
                       Some p \<Rightarrow> if p \<noteq> NULL \<and> Function_inUse s p then Some p
                                 else map_of (s_funcMap s) k'
                     | None \<Rightarrow> map_of (s_funcMap s) k')"
        using r(3) False pn e mk by (auto simp: fun_eq_iff split: option.splits)
      have h: "heap s' = (\<lambda>a. if a \<in> freed (e # es) s then None else heap s a)"
        using r(4) f by (auto simp: fun_eq_iff)
      from r(1) False pn e pd have "clear_entries (e # es) s = Inr s'"
        by (simp add: PgObject_free_def)
      moreover from r(2) have "s' = s\<lparr> s_funcMap := s_funcMap s', heap := heap s' \<rparr>" by simp
      ultimately show ?thesis using m h by auto
    qed
  qed
qed

lemma update_values: "snd ` set (AList.update k v m) \<subseteq> insert v (snd ` set m)"
  by (induction m) auto

lemma clear_entries_values:
  "clear_entries es s = Inr s' \<Longrightarrow>
     snd ` set (s_funcMap s') \<subseteq> snd ` set (s_funcMap s) \<union> {p. Function_inUse s p}"
proof (induction es arbitrary: s)
  case Nil
  then show ?case by simp
next
  case (Cons e es)
  obtain k p where e: "e = (k, p)" by (cases e)
  show ?case
  proof (cases "p \<noteq> NULL \<and> Function_inUse s p")
    case True
    with Cons.prems e have
      "clear_entries es (s\<lparr> s_funcMap := HashMap_putByOid (s_funcMap s) k p \<rparr>) = Inr s'"
      by simp
    from Cons.IH [OF this] True update_values [of k p "s_funcMap s"]
    show ?thesis by (auto simp: HashMap_putByOid_def)
  next
    case False
    with Cons.prems e have
      "clear_entries es s = Inr s' \<or>
       clear_entries es (s\<lparr> heap := (heap s)(p := None) \<rparr>) = Inr s'"
      by (auto simp: PgObject_free_def split: if_splits)
    then show ?thesis
    proof
      assume "clear_entries es s = Inr s'"
      from Cons.IH [OF this] show ?thesis .
    next
      assume "clear_entries es (s\<lparr> heap := (heap s)(p := None) \<rparr>) = Inr s'"
      from Cons.IH [OF this] show ?thesis by simp
    qed
  qed
qed

lemma clearFunctionCache_inUse:
  assumes "distinct (map fst (s_funcMap st))"
    and "distinct (filter (\<lambda>p. p \<noteq> NULL) (map snd (s_funcMap st)))"
    and "\<forall>p \<in> snd ` set (s_funcMap st). p \<noteq> NULL \<longrightarrow> p \<in> dom (heap st)"
  shows "\<exists>st'. Function_clearFunctionCache st = Inr st' \<and>
           (\<forall>(key, func) \<in> set (s_funcMap st). func \<noteq> NULL \<longrightarrow>
              (if Function_inUse st func
               then HashMap_getByOid (s_funcMap st') key = func \<and> heap st' func = heap st func
               else func \<notin> snd ` set (s_funcMap st') \<and> heap st' func = None))"
proof -
  let ?es = "s_funcMap st" and ?s = "st\<lparr> s_funcMap := [] \<rparr>"
  from assms(3) have al: "\<forall>p \<in> snd ` set ?es. p \<noteq> NULL \<longrightarrow> p \<in> dom (heap ?s)" by simp
  from clear_entries_spec [OF assms(1,2) al] obtain st' where
    r: "clear_entries ?es ?s = Inr st'" and
    m: "map_of (s_funcMap st') =
               (\<lambda>k. case map_of ?es k of
                       Some p \<Rightarrow> if p \<noteq> NULL \<and> Function_inUse ?s p then Some p
                                 else map_of (s_funcMap ?s) k
                     | None \<Rightarrow> map_of (s_funcMap ?s) k)" and
    h: "heap st' = (\<lambda>a. if a \<in> freed ?es ?s then None else heap ?s a)" by blast
  from clear_entries_values [OF r] have v: "snd ` set (s_funcMap st') \<subseteq> {p. Function_inUse st p}"
    by simp
  have k: "if Function_inUse st func
        then HashMap_getByOid (s_funcMap st') key = func \<and> heap st' func = heap st func
        else func \<notin> snd ` set (s_funcMap st') \<and> heap st' func = None"
    if e: "(key, func) \<in> set ?es" and n: "func \<noteq> NULL" for key func
  proof (cases "Function_inUse st func")
    case True
    from e assms(1) have "map_of ?es key = Some func" by simp
    with m True n have "map_of (s_funcMap st') key = Some func" by simp
    moreover from True have "func \<notin> freed ?es ?s" by (simp add: freed_def)
    ultimately show ?thesis using True h by (simp add: HashMap_getByOid_def)
  next
    case False
    with e n have "func \<in> freed ?es ?s" by (force simp: freed_def)
    with h have "heap st' func = None" by simp
    moreover from v False have "func \<notin> snd ` set (s_funcMap st')" by blast
    ultimately show ?thesis using False by (simp only: if_False) simp
  qed
  have "\<forall>(key, func) \<in> set ?es. func \<noteq> NULL \<longrightarrow>
              (if Function_inUse st func
               then HashMap_getByOid (s_funcMap st') key = func \<and> heap st' func = heap st func
               else func \<notin> snd ` set (s_funcMap st') \<and> heap st' func = None)"
  proof (intro ballI)
    fix x assume x: "x \<in> set ?es"
    obtain key func where xe: "x = (key, func)" by (cases x)
    from x k [of key func] show "case x of (key, func) \<Rightarrow> func \<noteq> NULL \<longrightarrow>
              (if Function_inUse st func
               then HashMap_getByOid (s_funcMap st') key = func \<and> heap st' func = heap st func
               else func \<notin> snd ` set (s_funcMap st') \<and> heap st' func = None)"
      unfolding xe prod.case by blast
  qed
  moreover from r have "Function_clearFunctionCache st = Inr st'"
    by (simp add: Function_clearFunctionCache_def)
  ultimately show ?thesis by blast
qed

lemma inUse_walk_iff:
  "inUse_walk ics func \<longleftrightarrow> (\<exists>ic \<in> set ics. ic_function ic = func)"
  by (induction ics) auto

lemma Function_inUse_iff:
  "Function_inUse st func \<longleftrightarrow> (\<exists>ic \<in> set (currentInvocation st). ic_function ic = func)"
  by (simp add: Function_inUse_def inUse_walk_iff)

lemma ex_replace:
  "Function_getFunction ex_host 42 False True True ex_state_nested = Inr (2, ex_state_replaced)"
  by (simp add: ex_create_defs eval_defs ex_state_nested_def ex_state_cached_def
        ex_state_replaced_def ex_f_String_def numeral_2_eq_2)

lemma ex_clear_replaced:
  "Function_clearFunctionCache ex_state_replaced = Inr ex_state_replaced"
  by (simp add: Function_clearFunctionCache_def ex_state_replaced_def ex_state_nested_def
        ex_state_cached_def ex_state_def Function_inUse_def ex_frame_def NULL_def
        HashMap_putByOid_def)

text \<open>
  C5 as stated fails. Descriptor 1 is executing when the validator, called with the
  check of the body in a frame of its own, puts a new descriptor under the same key.
  At the invalidation that follows, descriptor 1 is allocated and referenced by the
  outer frame of the stack, yet it is no value of the new registry: the invalidation
  only walks the entries of the old one.
\<close>

theorem clearFunctionCache_in_use_counterexample:
  "Function_getFunction ex_host 42 False True True ex_state_nested = Inr (2, ex_state_replaced)
   \<and> Function_clearFunctionCache ex_state_replaced = Inr ex_state_replaced
   \<and> ic_function (currentInvocation ex_state_replaced ! 1) = 1
   \<and> heap ex_state_replaced 1 = Some ex_f_String
   \<and> 1 \<notin> snd ` set (s_funcMap ex_state_replaced)"
  using ex_replace ex_clear_replaced by (simp add: ex_state_replaced_def)

text \<open>
  C5 as amended. Let the registry have unique keys, hold each descriptor under one key
  only, and hold only allocated descriptors. Then \<open>Function_clearFunctionCache\<close>
  returns, and for every descriptor the registry held at that moment: if some frame of
  the invocation stack referenced it, the new registry maps its key to it and its fields
  are unchanged; if no frame did, it is no value of the new registry and it has been
  released.
\<close>

theorem clearFunctionCache_in_use_survival:
  assumes "distinct (map fst (s_funcMap st))"
    and "distinct (filter (\<lambda>p. p \<noteq> NULL) (map snd (s_funcMap st)))"
    and "\<forall>p \<in> snd ` set (s_funcMap st). p \<noteq> NULL \<longrightarrow> p \<in> dom (heap st)"
  shows "\<exists>st'. Function_clearFunctionCache st = Inr st' \<and>
           (\<forall>(key, func) \<in> set (s_funcMap st). func \<noteq> NULL \<longrightarrow>
              (if \<exists>ic \<in> set (currentInvocation st). ic_function ic = func
               then HashMap_getByOid (s_funcMap st') key = func \<and> heap st' func = heap st func
               else func \<notin> snd ` set (s_funcMap st') \<and> heap st' func = None))"
  using clearFunctionCache_inUse [OF assms] by (simp only: Function_inUse_iff)

lemma ex_clear:
  "Function_clearFunctionCache ex_state_three = Inr ex_state_cleared"
  by (simp add: Function_clearFunctionCache_def ex_state_three_def ex_state_cleared_def
        ex_state_def Function_inUse_def ex_frame_def NULL_def PgObject_free_def
        HashMap_putByOid_def fun_upd_twist)

theorem clearFunctionCache_in_use_survival_witness:
  "distinct (map fst (s_funcMap ex_state_three))
   \<and> distinct (filter (\<lambda>p. p \<noteq> NULL) (map snd (s_funcMap ex_state_three)))
   \<and> snd ` set (s_funcMap ex_state_three) = {1, 2, 3} \<and> dom (heap ex_state_three) = {1, 2, 3}
   \<and> ic_function (currentInvocation ex_state_three ! 0) = 3
   \<and> ic_function (currentInvocation ex_state_three ! 1) = 2
   \<and> length (currentInvocation ex_state_three) = 2
   \<and> Function_clearFunctionCache ex_state_three = Inr ex_state_cleared
   \<and> HashMap_getByOid (s_funcMap ex_state_cleared) 11 = 2
   \<and> heap ex_state_cleared 2 = heap ex_state_three 2
   \<and> HashMap_getByOid (s_funcMap ex_state_cleared) 12 = 3
   \<and> heap ex_state_cleared 3 = heap ex_state_three 3
   \<and> 1 \<notin> snd ` set (s_funcMap ex_state_cleared) \<and> heap ex_state_cleared 1 = None"
proof -
  have a: "distinct (map fst (s_funcMap ex_state_three))"
    and b: "distinct (filter (\<lambda>p. p \<noteq> NULL) (map snd (s_funcMap ex_state_three)))"
    and c: "\<forall>p \<in> snd ` set (s_funcMap ex_state_three). p \<noteq> NULL \<longrightarrow>
              p \<in> dom (heap ex_state_three)"
    by (simp_all add: ex_state_three_def NULL_def)
  have u: "\<exists>ic \<in> set (currentInvocation ex_state_three). ic_function ic = 2"
    "\<exists>ic \<in> set (currentInvocation ex_state_three). ic_function ic = 3"
    "\<not> (\<exists>ic \<in> set (currentInvocation ex_state_three). ic_function ic = 1)"
    by (simp_all add: ex_state_three_def ex_frame_def NULL_def)
  have e: "(10, 1) \<in> set (s_funcMap ex_state_three)" "(11, 2) \<in> set (s_funcMap ex_state_three)"
    "(12, 3) \<in> set (s_funcMap ex_state_three)"
    by (simp_all add: ex_state_three_def)
  from clearFunctionCache_in_use_survival [OF a b c] ex_clear
  have t: "\<forall>(key, func) \<in> set (s_funcMap ex_state_three). func \<noteq> NULL \<longrightarrow>
              (if \<exists>ic \<in> set (currentInvocation ex_state_three). ic_function ic = func
               then HashMap_getByOid (s_funcMap ex_state_cleared) key = func
                  \<and> heap ex_state_cleared func = heap ex_state_three func
               else func \<notin> snd ` set (s_funcMap ex_state_cleared)
                  \<and> heap ex_state_cleared func = None)"
    by auto
  have n: "(1::nat) \<noteq> NULL" "(2::nat) \<noteq> NULL" "(3::nat) \<noteq> NULL" by (simp_all add: NULL_def)
  from bspec [OF t e(2)] n(2) u(1)
  have p: "HashMap_getByOid (s_funcMap ex_state_cleared) 11 = 2
       \<and> heap ex_state_cleared 2 = heap ex_state_three 2"
    unfolding prod.case by (simp only: if_True simp_thms)
  from bspec [OF t e(3)] n(3) u(2)
  have p3: "HashMap_getByOid (s_funcMap ex_state_cleared) 12 = 3
       \<and> heap ex_state_cleared 3 = heap ex_state_three 3"
    unfolding prod.case by (simp only: if_True simp_thms)
  from bspec [OF t e(1)] n(1) u(3)
  have q: "1 \<notin> snd ` set (s_funcMap ex_state_cleared) \<and> heap ex_state_cleared 1 = None"
    unfolding prod.case by (simp only: if_False simp_thms)
  have v: "snd ` set (s_funcMap ex_state_three) = {1, 2, 3}"
    "dom (heap ex_state_three) = {1, 2, 3}"
    "ic_function (currentInvocation ex_state_three ! 0) = 3"
    "ic_function (currentInvocation ex_state_three ! 1) = 2"
    "length (currentInvocation ex_state_three) = 2"
    by (auto simp: ex_state_three_def)
  from a b v ex_clear p p3 q show ?thesis by (simp only: simp_thms)
qed

end
